theory Spec2Isabelle
  imports Main "HOL-Library.Sublist" "HOL-Library.Multiset"
begin

section \<open>Strings and the standard-library functions the generator calls\<close>

text \<open>
  Go strings are byte sequences; they are modelled as \<open>string\<close> (a list of 8-bit
  characters). The format strings of the source contain tabs, newlines, double quotes and
  backticks, which are named here.
\<close>

abbreviation tab :: char where "tab \<equiv> CHR 0x09"
abbreviation nl :: char where "nl \<equiv> CHR 0x0A"
abbreviation dq :: char where "dq \<equiv> CHR 0x22"
abbreviation bq :: char where "bq \<equiv> CHR 0x60"
abbreviation sp :: char where "sp \<equiv> CHR 0x20"

definition lowers :: string where "lowers = ''abcdefghijklmnopqrstuvwxyz''"
definition uppers :: string where "uppers = ''ABCDEFGHIJKLMNOPQRSTUVWXYZ''"
definition digits :: string where "digits = ''0123456789''"

definition isAlnum :: "char \<Rightarrow> bool" where
  "isAlnum c = (c \<in> set digits \<or> c \<in> set lowers \<or> c \<in> set uppers)"

text \<open>
  \<^verbatim>\<open>var notWord = regexp.MustCompile(`[^\w]|[_]`)\<close>: the class \<open>\w\<close> of Go's regexp
  package is \<open>[0-9A-Za-z_]\<close>, so the expression matches every character that is not
  alphanumeric, the underscore included. A multi-byte rune is matched as one character and
  replaced by one space where the model replaces each of its bytes; \<open>titleize\<close> removes
  every space afterwards, so both give the same result.
\<close>

definition notWord :: "char \<Rightarrow> bool" where
  "notWord c = (\<not> (isAlnum c \<or> c = CHR ''_'') \<or> c = CHR ''_'')"

text \<open>
  \<open>strings.Title\<close> maps every letter that follows a separator (or starts the string) to
  title case. On the input \<open>titleize\<close> gives it (ASCII letters, digits and spaces) the
  separators are the spaces, and title case is upper case.
\<close>

definition toTitle :: "char \<Rightarrow> char" where
  "toTitle c = (case map_of (zip lowers uppers) c of Some u \<Rightarrow> u | None \<Rightarrow> c)"

definition isSeparator :: "char \<Rightarrow> bool" where
  "isSeparator c = (\<not> (isAlnum c \<or> c = CHR ''_''))"

fun Title_from :: "char \<Rightarrow> string \<Rightarrow> string" where
  "Title_from prev [] = []"
| "Title_from prev (r # rs) =
     (if isSeparator prev then toTitle r else r) # Title_from r rs"

definition Title :: "string \<Rightarrow> string" where
  "Title s = Title_from sp s"

text \<open>
  \<^verbatim>\<open>strings.Replace(strings.Title(notWord.ReplaceAllString(in, " ")), " ", "", -1)\<close>
\<close>

definition titleize :: "string \<Rightarrow> string" where
  "titleize s =
     filter (\<lambda>c. c \<noteq> sp) (Title (map (\<lambda>c. if notWord c then sp else c) s))"

text \<open>
  The naming transform as the specification words it: split the name at the stripped
  characters, title-case each segment (first character to upper case), concatenate.
\<close>

fun segments :: "string \<Rightarrow> string \<Rightarrow> string list" where
  "segments cur [] = [cur]"
| "segments cur (c # cs) =
     (if notWord c then cur # segments [] cs else segments (cur @ [c]) cs)"

fun capitalize :: "string \<Rightarrow> string" where
  "capitalize [] = []"
| "capitalize (c # cs) = toTitle c # cs"

definition titleize_spec :: "string \<Rightarrow> string" where
  "titleize_spec s = concat (map capitalize (segments [] s))"

text \<open>\<open>strings.Replace(s, old, new, 1)\<close>: the leftmost occurrence of \<open>old\<close> is replaced;
  an empty \<open>old\<close> matches at the start of the string.\<close>

fun replace1 :: "string \<Rightarrow> string \<Rightarrow> string \<Rightarrow> string" where
  "replace1 [] old new = (if old = [] then new else [])"
| "replace1 (c # cs) old new =
     (if prefix old (c # cs) then new @ drop (length old) (c # cs)
      else c # replace1 cs old new)"

text \<open>\<open>strings.Join\<close>.\<close>

fun join :: "string \<Rightarrow> string list \<Rightarrow> string" where
  "join sep [] = []"
| "join sep [x] = x"
| "join sep (x # y # ys) = x @ sep @ join sep (y # ys)"

text \<open>The verb \<open>%d\<close> of \<open>fmt.Sprintf\<close> on an \<open>int\<close>.\<close>

fun natToDec :: "nat \<Rightarrow> string" where
  "natToDec n =
     (if n < 10 then [digits ! n] else natToDec (n div 10) @ [digits ! (n mod 10)])"

declare natToDec.simps [simp del]

definition itoa :: "int \<Rightarrow> string" where
  "itoa i = (if i < 0 then CHR ''-'' # natToDec (nat (- i)) else natToDec (nat i))"

section \<open>The syntax tree of package parse\<close>

text \<open>
  The generator switches on the dynamic type of expressions and nodes. The kinds it names
  are constructors; every other kind of the parser falls through the switch and is
  \<open>OtherExpr\<close> or \<open>OtherNode\<close>. Statement nodes carry \<open>Line\<close> and \<open>Offset\<close> first.
\<close>

datatype expr =
    NameExpr string
  | StringExpr string
  | GetAttrExpr expr expr "expr list"
  | FuncExpr string "expr list"
  | BinaryExpr expr string expr
  | OtherExpr

definition OpBinaryEqual :: string where
  "OpBinaryEqual = ''==''"

text \<open>
  \<open>ModuleNode parent body\<close>: \<open>parent\<close> is the target expression of the extends tag
  (\<open>node.Parent.Tpl\<close>), \<open>None\<close> when \<open>node.Parent\<close> is nil; \<open>body\<close> are the children of the
  embedded body node. \<open>IfNode line offset cond body else\<close>: the parser gives every if
  statement an else body node, empty when the template has none; the model keeps its
  children. \<open>ForNode line offset key val x body\<close>.
\<close>

datatype node =
    ModuleNode "expr option" "node list"
  | BodyNode "node list"
  | IncludeNode expr
  | TextNode int int string
  | PrintNode int int expr
  | BlockNode int int string node
  | ForNode int int string string expr node
  | IfNode int int expr node "node list"
  | OtherNode

section \<open>The generator\<close>

datatype error = Err string

record evaluatedExpr =
  body :: string
  isFunction :: bool
  hasError :: bool
  resultantName :: string

text \<open>
  A renderer is the closure registered for a block: it captures the block node (its name
  and body are all it reads) and the name of the inheritance root, and reads the generator
  when it is called.
\<close>

datatype renderer = Renderer (rootName: string) (blockName: string) (blockBody: node)

text \<open>
  The fields of \<open>Generator\<close>, the loader apart: it is never assigned after
  \<open>NewGenerator\<close> and is passed beside the state. A loader here is the source's
  \<open>loader.Load\<close>, \<open>ioutil.ReadAll\<close> and \<open>parse.Parse\<close> in sequence, giving the root
  of the tree or the first error.
\<close>

record Generator =
  pkgName :: string
  out :: string
  name :: string
  "imports" :: "string \<rightharpoonup> bool"
  blocks :: "string \<rightharpoonup> renderer"
  args :: "string \<rightharpoonup> bool"
  root :: bool
  stack :: "string list"
  tabs :: int

type_synonym loader = "string \<Rightarrow> error + node"

text \<open>
  A call returns, panics (an index out of range) or, on a cyclic chain of templates, never
  returns. The recursion through the loader is bounded by fuel: \<open>OutOfFuel\<close> stands for a
  call that has not returned within the given depth of nested templates.
\<close>

datatype 'a res = OutOfFuel | Panic | Done 'a Generator

definition NewGenerator :: "string \<Rightarrow> Generator" where
  "NewGenerator pkg =
     \<lparr> pkgName = pkg, out = [], name = [],
       imports = [''github.com/tyler-sommer/stick'' \<mapsto> True, ''io'' \<mapsto> True],
       blocks = Map.empty, args = Map.empty, root = True, stack = [], tabs = 1 \<rparr>"

text \<open>\<open>strings.Repeat\<close> panics on a negative count; \<open>tabs\<close> starts at 1 and every
  decrement follows an increment (lemma \<open>walk_tabs\<close> below), so the count is never
  negative.\<close>

definition indent :: "Generator \<Rightarrow> string" where
  "indent g = replicate (nat (tabs g)) tab"

definition addImport :: "string \<Rightarrow> Generator \<Rightarrow> Generator" where
  "addImport nm g =
     (if imports g nm = None then g\<lparr>imports := (imports g)(nm \<mapsto> True)\<rparr> else g)"

definition writeString :: "string \<Rightarrow> Generator \<Rightarrow> Generator" where
  "writeString s g = g\<lparr>out := out g @ s\<rparr>"

definition evaluate :: "expr \<Rightarrow> string option" where
  "evaluate e = (case e of StringExpr t \<Rightarrow> Some t | _ \<Rightarrow> None)"

definition newNameExpr :: "string \<Rightarrow> evaluatedExpr" where
  "newNameExpr nm = \<lparr> body = nm, isFunction = False, hasError = False, resultantName = nm \<rparr>"

definition emptyExpr :: evaluatedExpr where
  "emptyExpr = \<lparr> body = [], isFunction = False, hasError = False, resultantName = [] \<rparr>"

subsection \<open>walkExpr\<close>

fun walkExpr :: "Generator \<Rightarrow> expr \<Rightarrow> error + evaluatedExpr" where
  "walkExpr g (NameExpr nm) =
     (if args g nm \<noteq> None then Inr (newNameExpr nm)
      else Inr (newNameExpr (''ctx['' @ [dq] @ nm @ [dq] @ '']'')))"
| "walkExpr g (StringExpr t) = Inr (newNameExpr ([dq] @ t @ [dq]))"
| "walkExpr g (GetAttrExpr cont attr as) =
     (if length as > 0 then Inl (Err ''Method calls are currently unsupported.'')
      else case walkExpr g attr of
        Inl e \<Rightarrow> Inl e
      | Inr a \<Rightarrow>
         (case walkExpr g cont of
            Inl e \<Rightarrow> Inl e
          | Inr nm \<Rightarrow>
             Inr \<lparr> body = ''val, err := stick.GetAttr('' @ resultantName nm @ '', ''
                            @ resultantName a @ '')'',
                   isFunction = True, hasError = True, resultantName = ''val'' \<rparr>))"
| "walkExpr g (FuncExpr fn [x]) =
     (case walkExpr g x of
        Inl e \<Rightarrow> Inl e
      | Inr arg \<Rightarrow>
         (let argBody = (if isFunction arg then replace1 (body arg) ''err'' ''_'' else [])
          in Inr \<lparr> body = argBody @ [nl]
                     @ indent g @ [tab] @ ''var fnval stick.Value = '' @ [dq, dq, nl]
                     @ indent g @ [tab] @ ''if fn, ok := env.Functions['' @ [dq] @ fn @ [dq]
                         @ '']; ok {'' @ [nl]
                     @ indent g @ [tab, tab] @ ''fnval = fn(nil, '' @ resultantName arg
                         @ '')'' @ [nl]
                     @ indent g @ [tab] @ ''}'',
                   isFunction = True, hasError = False, resultantName = ''fnval'' \<rparr>))"
| "walkExpr g (FuncExpr fn as) =
     Inl (Err ''Function currently calls only support a single argument.'')"
| "walkExpr g (BinaryExpr l op r) =
     (if op = OpBinaryEqual then
        (case walkExpr g l of
           Inl e \<Rightarrow> Inl e
         | Inr left \<Rightarrow>
            (case walkExpr g r of
               Inl e \<Rightarrow> Inl e
             | Inr right \<Rightarrow>
                (let pre1 = (if isFunction left then replace1 (body left) ''err'' ''_ ''
                             else []);
                     pre2 = (if isFunction right
                             then (if pre1 \<noteq> [] then pre1 @ [nl] @ indent g else pre1)
                                  @ replace1 (replace1 (body left) ''err'' ''_ '')
                                      (resultantName right) ''right''
                             else pre1);
                     rightName = (if isFunction right then ''right''
                                  else resultantName right)
                 in Inr \<lparr> body = pre2,
                          isFunction = (isFunction left \<or> isFunction right),
                          hasError = False,
                          resultantName = ''stick.Equal('' @ resultantName left @ '', ''
                            @ rightName @ '')'' \<rparr>)))
      else Inl (Err (''stickgen: unsupported binary operator: '' @ op)))"
| "walkExpr g OtherExpr = Inr emptyExpr"

subsection \<open>walk and generate\<close>

text \<open>The trace comment \<^verbatim>\<open>%s// line %d, offset %d in %s\<close> that starts every statement.\<close>

definition traceLine :: "Generator \<Rightarrow> int \<Rightarrow> int \<Rightarrow> string" where
  "traceLine g line offset =
     indent g @ ''// line '' @ itoa line @ '', offset '' @ itoa offset @ '' in '' @ name g
       @ [nl]"

definition fprint :: "Generator \<Rightarrow> string \<Rightarrow> string" where
  "fprint g ref = indent g @ ''fmt.Fprint(output, '' @ ref @ '')'' @ [nl]"

text \<open>The print case of \<open>walk\<close> after the expression has been translated.\<close>

definition printStmt :: "evaluatedExpr \<Rightarrow> int \<Rightarrow> int \<Rightarrow> Generator \<Rightarrow> Generator" where
  "printStmt v line offset g =
     (let g = addImport ''fmt'' g;
          g = writeString (traceLine g line offset) g
      in if isFunction v then
           (let g = writeString (indent g @ ''{'' @ [nl]) g;
                g = g\<lparr>tabs := tabs g + 1\<rparr>;
                g = writeString (indent g @ body v @ [nl]) g;
                g = (if hasError v then
                       (let g = writeString (indent g @ ''if err == nil {'' @ [nl]) g;
                            g = g\<lparr>tabs := tabs g + 1\<rparr>;
                            g = writeString (fprint g (resultantName v)) g;
                            g = g\<lparr>tabs := tabs g - 1\<rparr>
                        in writeString (indent g @ ''}'' @ [nl]) g)
                     else writeString (fprint g (resultantName v)) g);
                g = g\<lparr>tabs := tabs g - 1\<rparr>
            in writeString (indent g @ ''}'' @ [nl]) g)
         else writeString (fprint g (resultantName v)) g)"

text \<open>The for case up to the walk of the body, and from there on.\<close>

definition forKey :: "string \<Rightarrow> string" where
  "forKey key = (if key \<noteq> [] then key else ''_'')"

definition forOpen ::
  "evaluatedExpr \<Rightarrow> int \<Rightarrow> int \<Rightarrow> string \<Rightarrow> string \<Rightarrow> Generator \<Rightarrow> Generator" where
  "forOpen x line offset key val g =
     (let g = (if key \<noteq> [] then g\<lparr>args := (args g)(key \<mapsto> True)\<rparr> else g);
          g = g\<lparr>args := (args g)(val \<mapsto> True)\<rparr>;
          g = writeString (traceLine g line offset @ indent g @ ''stick.Iterate(''
                @ resultantName x @ '', func('' @ forKey key @ '', '' @ val
                @ '' stick.Value, loop stick.Loop) (brk bool, err error) {'' @ [nl]) g
      in g\<lparr>tabs := tabs g + 1\<rparr>)"

definition forClose :: "string \<Rightarrow> string \<Rightarrow> Generator \<Rightarrow> Generator" where
  "forClose key val g =
     (let g = g\<lparr>args := (args g)(val := None)\<rparr>;
          g = g\<lparr>args := (args g)(forKey key := None)\<rparr>;
          g = writeString (indent g @ ''return false, nil'' @ [nl]) g;
          g = g\<lparr>tabs := tabs g - 1\<rparr>
      in writeString (indent g @ ''})'' @ [nl]) g)"

text \<open>The if case: up to the walk of the body, the opening of the else branch, and the
  end, where the deferred function runs last.\<close>

definition ifOpen :: "evaluatedExpr \<Rightarrow> int \<Rightarrow> int \<Rightarrow> Generator \<Rightarrow> Generator" where
  "ifOpen cond line offset g =
     (let g = writeString (traceLine g line offset) g;
          g = (if isFunction cond then
                 (let g = writeString (indent g @ ''{'' @ [nl] @ indent g @ [tab] @ body cond
                            @ [nl]) g
                  in g\<lparr>tabs := tabs g + 1\<rparr>)
               else g);
          errCheck = (if isFunction cond \<and> hasError cond then ''err == nil && '' else []);
          g = writeString (indent g @ ''if '' @ errCheck @ ''stick.CoerceBool(''
                @ resultantName cond @ '') {'' @ [nl]) g
      in g\<lparr>tabs := tabs g + 1\<rparr>)"

definition elseOpen :: "Generator \<Rightarrow> Generator" where
  "elseOpen g =
     (let g = writeString (indent g @ ''} else {'' @ [nl]) g in g\<lparr>tabs := tabs g + 1\<rparr>)"

definition ifClose :: "evaluatedExpr \<Rightarrow> Generator \<Rightarrow> Generator" where
  "ifClose cond g =
     (let g = writeString (indent g @ ''}'' @ [nl]) g
      in if isFunction cond then
           (let g = g\<lparr>tabs := tabs g - 1\<rparr> in writeString (indent g @ ''}'' @ [nl]) g)
         else g)"

text \<open>The deferred function of \<open>generate\<close>: \<open>g.stack[:len(g.stack)-1]\<close> and
  \<open>g.stack[len(g.stack)-1]\<close> panic when out of range.\<close>

definition popStack :: "Generator \<Rightarrow> error option res" where
  "popStack g =
     (if stack g = [] then Panic
      else let g = g\<lparr>stack := butlast (stack g)\<rparr>
           in if stack g = [] then Panic
              else let g = g\<lparr>name := last (stack g)\<rparr>
                   in Done None (g\<lparr>root := (length (stack g) = 1)\<rparr>))"

text \<open>
  \<open>walk L n node g\<close> is \<open>g.walk(node)\<close> and \<open>generate L n nm g\<close> is \<open>g.generate(nm)\<close>, with
  loader \<open>L\<close> and fuel \<open>n\<close>; the result \<open>Done err g'\<close> carries the returned error (\<open>None\<close> is
  nil) and the generator after the call. \<open>walk_all\<close> is the loop of the body case.
  Where the source calls \<open>g.walk\<close> and drops the result (\<open>generate\<close>, the bodies of for and
  if), the model drops it too.
\<close>

function (sequential)
  walk :: "loader \<Rightarrow> nat \<Rightarrow> node \<Rightarrow> Generator \<Rightarrow> error option res" and
  walk_all :: "loader \<Rightarrow> nat \<Rightarrow> node list \<Rightarrow> Generator \<Rightarrow> error option res" and
  generate :: "loader \<Rightarrow> nat \<Rightarrow> string \<Rightarrow> Generator \<Rightarrow> error option res"
where
  "walk L n (ModuleNode parent cs) g =
     (case parent of
        None \<Rightarrow> walk L n (BodyNode cs) g
      | Some tpl \<Rightarrow>
         (case evaluate tpl of
            Some nm \<Rightarrow>
              (case generate L n nm g of
                 Done None g1 \<Rightarrow> walk L n (BodyNode cs) g1
               | r \<Rightarrow> r)
          | None \<Rightarrow> Done (Some (Err ''Unable to evaluate extends reference'')) g))"
| "walk L n (BodyNode cs) g = walk_all L n cs g"
| "walk L n (IncludeNode tpl) g =
     (case evaluate tpl of
        Some nm \<Rightarrow> generate L n nm g
      | None \<Rightarrow> Done (Some (Err ''Unable to evaluate include reference'')) g)"
| "walk L n (TextNode line offset dat) g =
     (let g = addImport ''fmt'' g
      in Done None (writeString (traceLine g line offset @ indent g
           @ ''fmt.Fprint(output, '' @ [bq] @ dat @ [bq] @ '')'' @ [nl]) g))"
| "walk L n (PrintNode line offset x) g =
     (case walkExpr g x of
        Inl e \<Rightarrow> Done (Some e) g
      | Inr v \<Rightarrow> Done None (printStmt v line offset g))"
| "walk L n (BlockNode line offset nm b) g =
     (let g = addImport ''fmt'' g
      in case stack g of
           [] \<Rightarrow> Panic
         | r0 # _ \<Rightarrow>
            (let g = g\<lparr>blocks := (blocks g)(nm \<mapsto> Renderer r0 nm b)\<rparr>
             in Done None
                  (if \<not> root g then
                     writeString (traceLine g line offset @ indent g @ ''block''
                       @ titleize r0 @ titleize nm @ ''(env, output, ctx)'' @ [nl]) g
                   else g)))"
| "walk L n (ForNode line offset key val x b) g =
     (case walkExpr g x of
        Inl e \<Rightarrow> Done (Some e) g
      | Inr v \<Rightarrow>
         (case walk L n b (forOpen v line offset key val g) of
            Done _ g1 \<Rightarrow> Done None (forClose key val g1)
          | r \<Rightarrow> r))"
| "walk L n (IfNode line offset c b els) g =
     (case walkExpr g c of
        Inl e \<Rightarrow> Done (Some e) g
      | Inr cond \<Rightarrow>
         (case walk L n b (ifOpen cond line offset g) of
            Done _ g1 \<Rightarrow>
              (let g2 = g1\<lparr>tabs := tabs g1 - 1\<rparr>
               in if length els > 0 then
                    (case walk L n (BodyNode els) (elseOpen g2) of
                       Done _ g3 \<Rightarrow> Done None (ifClose cond (g3\<lparr>tabs := tabs g3 - 1\<rparr>))
                     | r \<Rightarrow> r)
                  else Done None (ifClose cond g2))
          | r \<Rightarrow> r))"
| "walk L n OtherNode g = Done None g"
| "walk_all L n [] g = Done None g"
| "walk_all L n (c # cs) g =
     (case walk L n c g of
        Done None g1 \<Rightarrow> walk_all L n cs g1
      | r \<Rightarrow> r)"
| "generate L n nm g =
     (case L nm of
        Inl e \<Rightarrow> Done (Some e) g
      | Inr tree \<Rightarrow>
         (case n of
            0 \<Rightarrow> OutOfFuel
          | Suc m \<Rightarrow>
             (let g = g\<lparr>name := nm\<rparr>;
                  g = g\<lparr>stack := stack g @ [nm]\<rparr>;
                  g = g\<lparr>root := (length (stack g) = 1)\<rparr>
              in case walk L m tree g of
                   Done _ g1 \<Rightarrow> (if \<not> root g then popStack g1 else Done None g1)
                 | r \<Rightarrow> r)))"
  by pat_completeness auto

termination
  by (relation "inv_image (less_than <*lex*> less_than)
        (\<lambda>x. case x of
           Inl (L, n, nd, g) \<Rightarrow> (n, 3 * size nd + (case nd of BodyNode _ \<Rightarrow> 1 | _ \<Rightarrow> 3))
         | Inr (Inl (L, n, cs, g)) \<Rightarrow> (n, 3 * size_list size cs + 1)
         | Inr (Inr (L, n, nm, g)) \<Rightarrow> (n, 0))")
     (auto split: node.splits)

declare generate.simps [simp del]

subsection \<open>output and Generate\<close>

text \<open>Calling a renderer: the closure body of the block case.\<close>

definition callRenderer :: "loader \<Rightarrow> nat \<Rightarrow> renderer \<Rightarrow> Generator \<Rightarrow> unit res" where
  "callRenderer L n r g =
     (let g = writeString (''func block'' @ titleize (rootName r) @ titleize (blockName r)
                @ ''(env *stick.Env, output io.Writer, ctx map[string]stick.Value) {''
                @ [nl]) g
      in case walk L n (blockBody r) g of
           Done _ g1 \<Rightarrow> Done () (writeString ''}'' g1)
         | OutOfFuel \<Rightarrow> OutOfFuel
         | Panic \<Rightarrow> Panic)"

text \<open>
  Go leaves the order in which \<open>range\<close> visits a map unspecified, and an entry added
  during the loop may be visited or not. The orders are therefore inputs: \<open>border\<close> lists
  the keys of \<open>g.blocks\<close> and \<open>iorder\<close> the keys of \<open>g.imports\<close> in the order of the visit,
  each key once; a key that is not in the map when its turn comes is skipped.
\<close>

fun renderBlocks ::
  "loader \<Rightarrow> nat \<Rightarrow> string list \<Rightarrow> string list \<Rightarrow> Generator \<Rightarrow> string list res" where
  "renderBlocks L n [] funcs g = Done funcs g"
| "renderBlocks L n (k # ks) funcs g =
     (case blocks g k of
        None \<Rightarrow> renderBlocks L n ks funcs g
      | Some r \<Rightarrow>
         (case callRenderer L n r (g\<lparr>out := []\<rparr>) of
            Done _ g1 \<Rightarrow> renderBlocks L n ks (funcs @ [out g1]) g1
          | OutOfFuel \<Rightarrow> OutOfFuel
          | Panic \<Rightarrow> Panic))"

definition quoted :: "string \<Rightarrow> string" where
  "quoted v = [dq] @ v @ [dq]"

definition importLines :: "string list \<Rightarrow> Generator \<Rightarrow> string list" where
  "importLines iorder g = map quoted (filter (\<lambda>v. imports g v \<noteq> None) iorder)"

definition unitHead :: "string \<Rightarrow> string" where
  "unitHead pkg =
     ''// Code generated by stickgen.'' @ [nl] @ ''// DO NOT EDIT!'' @ [nl, nl]
       @ ''package '' @ pkg @ [nl, nl] @ ''import ('' @ [nl, tab]"

definition unitTail :: "string list \<Rightarrow> string \<Rightarrow> string \<Rightarrow> string" where
  "unitTail funcs nm bdy =
     [nl] @ '')'' @ [nl, nl] @ join [nl] funcs @ [nl, nl]
       @ ''func Template'' @ titleize nm
       @ ''(env *stick.Env, output io.Writer, ctx map[string]stick.Value) {'' @ [nl]
       @ bdy @ ''}'' @ [nl]"

definition "output" ::
  "loader \<Rightarrow> nat \<Rightarrow> string list \<Rightarrow> string list \<Rightarrow> Generator \<Rightarrow> string res" where
  "output L n border iorder g =
     (let bdy = out g
      in case renderBlocks L n border [] g of
           Done funcs g1 \<Rightarrow>
             Done (unitHead (pkgName g1) @ join [nl, tab] (importLines iorder g1)
                     @ unitTail funcs (name g1) bdy) g1
         | OutOfFuel \<Rightarrow> OutOfFuel
         | Panic \<Rightarrow> Panic)"

text \<open>\<open>Generate\<close> returns the pair of the source: the text and the error (\<open>None\<close> is nil).\<close>

definition Generate ::
  "loader \<Rightarrow> nat \<Rightarrow> string list \<Rightarrow> string list \<Rightarrow> string \<Rightarrow> Generator
     \<Rightarrow> (string \<times> error option) res" where
  "Generate L n border iorder nm g =
     (case generate L n nm g of
        Done (Some e) g1 \<Rightarrow> Done ([], Some e) g1
      | Done None g1 \<Rightarrow>
         (case output L n border iorder g1 of
            Done s g2 \<Rightarrow> Done (s, None) g2
          | OutOfFuel \<Rightarrow> OutOfFuel
          | Panic \<Rightarrow> Panic)
      | OutOfFuel \<Rightarrow> OutOfFuel
      | Panic \<Rightarrow> Panic)"

section \<open>Auxiliary definitions for the properties\<close>

abbreviation blank :: "string \<Rightarrow> string" where
  "blank s \<equiv> map (\<lambda>c. if notWord c then sp else c) s"

abbreviation unspace :: "string \<Rightarrow> string" where
  "unspace s \<equiv> filter (\<lambda>c. c \<noteq> sp) s"

text \<open>A property of the generator a call returns with, if it returns.\<close>

definition holds :: "(Generator \<Rightarrow> bool) \<Rightarrow> 'a res \<Rightarrow> bool" where
  "holds P r = (case r of Done x g \<Rightarrow> P g | _ \<Rightarrow> True)"

definition resultOf :: "'a res \<Rightarrow> 'a option" where
  "resultOf r = (case r of Done x g \<Rightarrow> Some x | _ \<Rightarrow> None)"

definition stateOf :: "'a res \<Rightarrow> Generator option" where
  "stateOf r = (case r of Done x g \<Rightarrow> Some g | _ \<Rightarrow> None)"

text \<open>The three assignments of \<open>generate\<close> before the walk.\<close>

definition pushName :: "string \<Rightarrow> Generator \<Rightarrow> Generator" where
  "pushName nm g = g\<lparr>name := nm, stack := stack g @ [nm], root := (stack g = [])\<rparr>"

text \<open>
  The registry of block functions is well keyed: the renderer under a key carries that key
  as its block name and the bottom of the inheritance stack as its root.
\<close>

definition blocks_ok :: "Generator \<Rightarrow> bool" where
  "blocks_ok g =
     (\<forall>k r. blocks g k = Some r \<longrightarrow> rootName r = hd (stack g) \<and> blockName r = k)"

definition registry_ok :: "Generator \<Rightarrow> bool" where
  "registry_ok g = (if stack g = [] then blocks g = Map.empty else blocks_ok g)"

definition keeps :: "Generator \<Rightarrow> Generator \<Rightarrow> bool" where
  "keeps g g' =
     (stack g \<noteq> [] \<longrightarrow> stack g' = stack g \<and> (blocks_ok g \<longrightarrow> blocks_ok g'))"

text \<open>Statements that leave the renderer registered under \<open>nm\<close> alone.\<close>

definition keepsBlock :: "string \<Rightarrow> node \<Rightarrow> bool" where
  "keepsBlock nm nd =
     (case nd of
        TextNode _ _ _ \<Rightarrow> True
      | PrintNode _ _ _ \<Rightarrow> True
      | BlockNode _ _ nm' _ \<Rightarrow> nm' \<noteq> nm
      | OtherNode \<Rightarrow> True
      | _ \<Rightarrow> False)"

text \<open>
  Statements whose walk registers no block: no block, no include and no module among
  them or below them. \<open>plainBlocks\<close>: every registered block has such a body.
\<close>

fun noBlocks :: "node \<Rightarrow> bool" where
  "noBlocks (ModuleNode parent cs) = False"
| "noBlocks (BodyNode cs) = (\<forall>c\<in>set cs. noBlocks c)"
| "noBlocks (IncludeNode tpl) = False"
| "noBlocks (TextNode line offset dat) = True"
| "noBlocks (PrintNode line offset x) = True"
| "noBlocks (BlockNode line offset nm b) = False"
| "noBlocks (ForNode line offset key val x b) = noBlocks b"
| "noBlocks (IfNode line offset c b els) = (noBlocks b \<and> (\<forall>c\<in>set els. noBlocks c))"
| "noBlocks OtherNode = True"

definition plainBlocks :: "Generator \<Rightarrow> bool" where
  "plainBlocks g = (\<forall>k r. blocks g k = Some r \<longrightarrow> noBlocks (blockBody r))"

text \<open>
  The loop of \<open>output\<close> over the blocks, reading a fixed registry \<open>reg\<close> in place of the
  registry of the generator it threads.
\<close>

fun renderFrom ::
  "loader \<Rightarrow> nat \<Rightarrow> (string \<rightharpoonup> renderer) \<Rightarrow> string list \<Rightarrow> string list \<Rightarrow> Generator
     \<Rightarrow> string list res" where
  "renderFrom L n reg [] funcs g = Done funcs g"
| "renderFrom L n reg (k # ks) funcs g =
     (case reg k of
        None \<Rightarrow> renderFrom L n reg ks funcs g
      | Some r \<Rightarrow>
         (case callRenderer L n r (g\<lparr>out := []\<rparr>) of
            Done _ g1 \<Rightarrow> renderFrom L n reg ks (funcs @ [out g1]) g1
          | OutOfFuel \<Rightarrow> OutOfFuel
          | Panic \<Rightarrow> Panic))"

text \<open>The expressions \<open>walkExpr\<close> rejects, and the messages it rejects them with.\<close>

fun unsupported :: "expr \<Rightarrow> bool" where
  "unsupported (NameExpr nm) = False"
| "unsupported (StringExpr t) = False"
| "unsupported (GetAttrExpr cont attr as) =
     (as \<noteq> [] \<or> unsupported attr \<or> unsupported cont)"
| "unsupported (FuncExpr fn [x]) = unsupported x"
| "unsupported (FuncExpr fn as) = True"
| "unsupported (BinaryExpr l op r) =
     (op \<noteq> OpBinaryEqual \<or> unsupported l \<or> unsupported r)"
| "unsupported OtherExpr = False"

definition unsupportedMessage :: "error \<Rightarrow> bool" where
  "unsupportedMessage e =
     (case e of Err m \<Rightarrow>
        m = ''Method calls are currently unsupported.''
        \<or> m = ''Function currently calls only support a single argument.''
        \<or> prefix ''stickgen: unsupported binary operator: '' m)"

definition indentAt :: "int \<Rightarrow> string" where
  "indentAt t = replicate (nat t) tab"

subsection \<open>Example templates\<close>

definition stdImports :: "string list" where
  "stdImports = [''fmt'', ''github.com/tyler-sommer/stick'', ''io'']"

definition helloPage :: node where
  "helloPage = ModuleNode None [TextNode 1 0 ''Hi'']"

definition basePage :: node where
  "basePage =
     ModuleNode None
       [TextNode 1 0 ''<main>'',
        BlockNode 2 0 ''content'' (BodyNode [TextNode 2 20 ''base'']),
        TextNode 3 0 ''</main>'']"

definition childPage :: node where
  "childPage =
     ModuleNode (Some (StringExpr ''base''))
       [BlockNode 2 0 ''content'' (BodyNode [TextNode 2 20 ''child''])]"

text \<open>A template with two blocks.\<close>

definition twoBlocksPage :: node where
  "twoBlocksPage =
     ModuleNode None
       [BlockNode 1 0 ''a'' (BodyNode []), BlockNode 2 0 ''b'' (BodyNode [])]"

text \<open>
  Two templates that define the same block, and a template whose block \<open>x\<close> holds a
  nested block \<open>y\<close>, with a template that extends it and defines \<open>y\<close> again; and the
  loader that serves them.
\<close>

definition pageA :: node where
  "pageA = ModuleNode None [BlockNode 1 0 ''x'' (BodyNode [TextNode 1 10 ''A''])]"

definition pageB :: node where
  "pageB = ModuleNode None [BlockNode 1 0 ''x'' (BodyNode [TextNode 1 10 ''B''])]"

definition nestedParent :: node where
  "nestedParent =
     ModuleNode None
       [BlockNode 1 0 ''x''
          (BodyNode [BlockNode 2 0 ''y'' (BodyNode [TextNode 2 10 ''parent-y''])])]"

definition nestedChild :: node where
  "nestedChild =
     ModuleNode (Some (StringExpr ''nestedparent''))
       [BlockNode 1 0 ''y'' (BodyNode [TextNode 1 10 ''child-y''])]"

definition registryLoader :: loader where
  "registryLoader nm =
     (if nm = ''a'' then Inr pageA
      else if nm = ''b'' then Inr pageB
      else if nm = ''nestedparent'' then Inr nestedParent
      else if nm = ''nestedchild'' then Inr nestedChild
      else Inl (Err ''template not found''))"

text \<open>A method call in a print statement, between two texts.\<close>

definition methodCall :: expr where
  "methodCall = GetAttrExpr (NameExpr ''user'') (StringExpr ''greet'') [StringExpr ''x'']"

definition methodPage :: node where
  "methodPage =
     ModuleNode None [TextNode 1 0 ''Hi'', PrintNode 1 2 methodCall, TextNode 1 24 ''Bye'']"

text \<open>The same statement in the body of a for loop and of an if statement.\<close>

definition loopMethodPage :: node where
  "loopMethodPage =
     ModuleNode None
       [ForNode 1 0 [] ''u'' (NameExpr ''users'') (BodyNode [PrintNode 2 0 methodCall]),
        IfNode 4 0 (NameExpr ''ok'') (BodyNode [PrintNode 5 0 methodCall]) [],
        TextNode 7 0 ''Bye'']"

text \<open>An extends tag and an include tag whose targets are names, not string literals.\<close>

definition dynExtendsPage :: node where
  "dynExtendsPage = ModuleNode (Some (NameExpr ''layout'')) [TextNode 2 0 ''x'']"

definition dynIncludePage :: node where
  "dynIncludePage =
     ModuleNode None [TextNode 1 0 ''a'', IncludeNode (NameExpr ''partial''), TextNode 3 0 ''b'']"

text \<open>A binary operator other than equality.\<close>

definition sumPage :: node where
  "sumPage =
     ModuleNode None [PrintNode 1 0 (BinaryExpr (NameExpr ''a'') ''+'' (NameExpr ''b''))]"

text \<open>A loop inside a loop, both binding \<open>item\<close>, and a reference to \<open>item\<close> after the
  inner loop.\<close>

definition innerLoop :: node where
  "innerLoop =
     ForNode 2 0 [] ''item'' (NameExpr ''cells'') (BodyNode [PrintNode 3 0 (NameExpr ''item'')])"

definition outerLoop :: node where
  "outerLoop =
     ForNode 1 0 [] ''item'' (NameExpr ''rows'')
       (BodyNode [innerLoop, PrintNode 5 0 (NameExpr ''item'')])"

definition exampleLoader :: loader where
  "exampleLoader nm =
     (if nm = ''hello'' then Inr helloPage
      else if nm = ''base'' then Inr basePage
      else if nm = ''child'' then Inr childPage
      else if nm = ''two'' then Inr twoBlocksPage
      else if nm = ''method'' then Inr methodPage
      else if nm = ''loopmethod'' then Inr loopMethodPage
      else if nm = ''dynextends'' then Inr dynExtendsPage
      else if nm = ''dyninclude'' then Inr dynIncludePage
      else if nm = ''sum'' then Inr sumPage
      else if nm = ''loops'' then Inr (ModuleNode None [outerLoop])
      else Inl (Err ''template not found''))"

text \<open>The block functions of \<open>twoBlocksPage\<close>.\<close>

definition blockTwoA :: string where
  "blockTwoA =
     ''func blockTwoA(env *stick.Env, output io.Writer, ctx map[string]stick.Value) {''
     @ [nl] @ ''}''"

definition blockTwoB :: string where
  "blockTwoB =
     ''func blockTwoB(env *stick.Env, output io.Writer, ctx map[string]stick.Value) {''
     @ [nl] @ ''}''"

definition helloBody :: string where
  "helloBody = [tab] @ ''// line 1, offset 0 in hello'' @ [nl, tab]
     @ ''fmt.Fprint(output, '' @ [bq] @ ''Hi'' @ [bq] @ '')'' @ [nl]"

text \<open>The text the generator has emitted when the walk of \<open>methodPage\<close> stops.\<close>

definition methodOut :: string where
  "methodOut =
     [tab] @ ''// line 1, offset 0 in method'' @ [nl, tab]
     @ ''fmt.Fprint(output, '' @ [bq] @ ''Hi'' @ [bq] @ '')'' @ [nl]"

text \<open>The text emitted for \<open>loopMethodPage\<close>.\<close>

definition loopMethodOut :: string where
  "loopMethodOut =
     [tab] @ ''// line 1, offset 0 in loopmethod'' @ [nl, tab]
     @ ''stick.Iterate(ctx['' @ [dq] @ ''users'' @ [dq]
     @ ''], func(_, u stick.Value, loop stick.Loop) (brk bool, err error) {''
     @ [nl, tab, tab] @ ''return false, nil'' @ [nl, tab] @ ''})'' @ [nl, tab]
     @ ''// line 4, offset 0 in loopmethod'' @ [nl, tab]
     @ ''if stick.CoerceBool(ctx['' @ [dq] @ ''ok'' @ [dq] @ '']) {''
     @ [nl, tab] @ ''}'' @ [nl, tab] @ ''// line 7, offset 0 in loopmethod''
     @ [nl, tab] @ ''fmt.Fprint(output, '' @ [bq] @ ''Bye'' @ [bq] @ '')''
     @ [nl]"

text \<open>The text emitted for \<open>dynIncludePage\<close>.\<close>

definition dynIncludeOut :: string where
  "dynIncludeOut =
     [tab] @ ''// line 1, offset 0 in dyninclude'' @ [nl, tab]
     @ ''fmt.Fprint(output, '' @ [bq] @ ''a'' @ [bq] @ '')'' @ [nl]"

text \<open>The text emitted for \<open>outerLoop\<close>.\<close>

definition loopsOut :: string where
  "loopsOut =
     [tab] @ ''// line 1, offset 0 in loops'' @ [nl, tab]
     @ ''stick.Iterate(ctx['' @ [dq] @ ''rows'' @ [dq]
     @ ''], func(_, item stick.Value, loop stick.Loop) (brk bool, err error) {''
     @ [nl, tab, tab] @ ''// line 2, offset 0 in loops'' @ [nl, tab, tab]
     @ ''stick.Iterate(ctx['' @ [dq] @ ''cells'' @ [dq]
     @ ''], func(_, item stick.Value, loop stick.Loop) (brk bool, err error) {''
     @ [nl, tab, tab, tab] @ ''// line 3, offset 0 in loops''
     @ [nl, tab, tab, tab] @ ''fmt.Fprint(output, item)''
     @ [nl, tab, tab, tab] @ ''return false, nil'' @ [nl, tab, tab] @ ''})''
     @ [nl, tab, tab] @ ''// line 5, offset 0 in loops'' @ [nl, tab, tab]
     @ ''fmt.Fprint(output, ctx['' @ [dq] @ ''item'' @ [dq] @ ''])''
     @ [nl, tab, tab] @ ''return false, nil'' @ [nl, tab] @ ''})'' @ [nl]"

text \<open>The generator inside the outer loop of \<open>outerLoop\<close>, before the inner loop.\<close>

definition insideOuterLoop :: Generator where
  "insideOuterLoop =
     forOpen (newNameExpr (''ctx['' @ [dq] @ ''rows'' @ [dq] @ '']'')) 1 0 [] ''item''
       (pushName ''loops'' (NewGenerator ''main''))"

text \<open>The block function of \<open>childPage\<close> and the body of its render function.\<close>

definition childContentFunc :: string where
  "childContentFunc =
     ''func blockChildContent(env *stick.Env, output io.Writer, ctx map[string]stick.Value) {''
     @ [nl, tab] @ ''// line 2, offset 20 in child'' @ [nl, tab]
     @ ''fmt.Fprint(output, '' @ [bq] @ ''child'' @ [bq] @ '')'' @ [nl]
     @ ''}''"

definition childOut :: string where
  "childOut =
     [tab] @ ''// line 1, offset 0 in base'' @ [nl, tab]
     @ ''fmt.Fprint(output, '' @ [bq] @ ''<main>'' @ [bq] @ '')'' @ [nl, tab]
     @ ''// line 2, offset 0 in base'' @ [nl, tab]
     @ ''blockChildContent(env, output, ctx)'' @ [nl, tab]
     @ ''// line 3, offset 0 in base'' @ [nl, tab] @ ''fmt.Fprint(output, ''
     @ [bq] @ ''</main>'' @ [bq] @ '')'' @ [nl]"

text \<open>
  The block function \<open>blockAX\<close> as rendered from \<open>pageA\<close> and from \<open>pageB\<close>, and the
  body of the render function of the second unit.
\<close>

definition blockAXofA :: string where
  "blockAXofA =
     ''func blockAX(env *stick.Env, output io.Writer, ctx map[string]stick.Value) {''
     @ [nl, tab] @ ''// line 1, offset 10 in a'' @ [nl, tab]
     @ ''fmt.Fprint(output, '' @ [bq] @ ''A'' @ [bq] @ '')'' @ [nl] @ ''}''"

definition blockAXofB :: string where
  "blockAXofB =
     ''func blockAX(env *stick.Env, output io.Writer, ctx map[string]stick.Value) {''
     @ [nl, tab] @ ''// line 1, offset 10 in a'' @ [nl, tab]
     @ ''fmt.Fprint(output, '' @ [bq] @ ''B'' @ [bq] @ '')'' @ [nl] @ ''}''"

definition secondOut :: string where
  "secondOut =
     ''func blockAX(env *stick.Env, output io.Writer, ctx map[string]stick.Value) {''
     @ [nl, tab] @ ''// line 1, offset 10 in a'' @ [nl, tab]
     @ ''fmt.Fprint(output, '' @ [bq] @ ''A'' @ [bq] @ '')'' @ [nl] @ ''}''
     @ [tab] @ ''// line 1, offset 0 in b'' @ [nl, tab]
     @ ''blockAX(env, output, ctx)'' @ [nl]"

text \<open>
  The block functions and the body of the render function of \<open>nestedChild\<close>, the blocks
  visited in the order \<open>x\<close>, \<open>y\<close>.
\<close>

definition nestedXFunc :: string where
  "nestedXFunc =
     ''func blockNestedchildX(env *stick.Env, output io.Writer, ctx map[string]stick.Value) {''
     @ [nl] @ ''}''"

definition nestedYFunc :: string where
  "nestedYFunc =
     ''func blockNestedchildY(env *stick.Env, output io.Writer, ctx map[string]stick.Value) {''
     @ [nl, tab] @ ''// line 2, offset 10 in nestedchild'' @ [nl, tab]
     @ ''fmt.Fprint(output, '' @ [bq] @ ''parent-y'' @ [bq] @ '')'' @ [nl]
     @ ''}''"

definition nestedOut :: string where
  "nestedOut =
     [tab] @ ''// line 1, offset 0 in nestedparent'' @ [nl, tab]
     @ ''blockNestedchildX(env, output, ctx)'' @ [nl]"

text \<open>The generator after \<open>a\<close> was compiled on a new generator.\<close>

definition afterA :: Generator where
  "afterA =
     (case Generate registryLoader 1 [''x''] stdImports ''a'' (NewGenerator ''main'') of
        Done _ g \<Rightarrow> g
      | _ \<Rightarrow> NewGenerator ''main'')"

definition afterHello :: Generator where
  "afterHello =
     (case Generate exampleLoader 1 [] stdImports ''hello'' (NewGenerator ''main'') of
        Done _ g \<Rightarrow> g
      | _ \<Rightarrow> NewGenerator ''main'')"

section \<open>Properties of the naming transform\<close>

lemmas char_tables = isAlnum_def lowers_def uppers_def digits_def

lemma isSeparator_sp: "isSeparator sp"
  by (simp add: isSeparator_def char_tables)

lemma toTitle_sp: "toTitle sp = sp"
  by (simp add: toTitle_def char_tables)

lemma isAlnum_toTitle: "isAlnum c \<Longrightarrow> isAlnum (toTitle c)"
  unfolding toTitle_def char_tables by auto

lemma isAlnum_not_sp: "isAlnum c \<Longrightarrow> c \<noteq> sp"
  unfolding char_tables by auto

lemma not_notWord: "\<not> notWord c \<longleftrightarrow> isAlnum c"
  unfolding notWord_def char_tables by auto

lemma isAlnum_not_sep: "isAlnum c \<Longrightarrow> \<not> isSeparator c"
  by (simp add: isSeparator_def)

lemma capitalize_snoc: "cur \<noteq> [] \<Longrightarrow> capitalize (cur @ [c]) = capitalize cur @ [c]"
  by (cases cur) simp_all

text \<open>
  The segments of the specification against the scan of \<open>strings.Title\<close>: inside a
  segment the previous character is no separator, at the start of one it is a space.
\<close>

lemma segments_Title:
  "(cur \<noteq> [] \<longrightarrow> \<not> isSeparator p \<longrightarrow>
      concat (map capitalize (segments cur cs))
        = capitalize cur @ unspace (Title_from p (blank cs)))
   \<and> concat (map capitalize (segments [] cs)) = unspace (Title_from sp (blank cs))"
proof (induction cs arbitrary: cur p)
  case Nil
  show ?case by simp
next
  case (Cons c cs)
  show ?case
  proof (cases "notWord c")
    case True
    with Cons.IH [of "[]" sp] show ?thesis
      by (simp add: toTitle_sp)
  next
    case False
    then have alnum: "isAlnum c" by (simp add: not_notWord)
    have nsep: "\<not> isSeparator c" using alnum by (rule isAlnum_not_sep)
    have c_sp: "c \<noteq> sp" using alnum by (rule isAlnum_not_sp)
    have t_sp: "toTitle c \<noteq> sp" using alnum isAlnum_toTitle isAlnum_not_sp by blast
    have step: "concat (map capitalize (segments (xs @ [c]) cs))
                  = capitalize (xs @ [c]) @ unspace (Title_from c (blank cs))" for xs
      using Cons.IH [of "xs @ [c]" c] nsep by simp
    show ?thesis
      using False step [of cur] step [of "[]"] c_sp t_sp
      by (simp add: isSeparator_sp capitalize_snoc)
  qed
qed

lemma titleize_is_spec: "titleize s = titleize_spec s"
  using segments_Title [of "[]" sp s] by (simp add: titleize_def titleize_spec_def Title_def)

lemma Title_from_alnum:
  "\<forall>c\<in>set s. isAlnum c \<or> c = sp \<Longrightarrow> \<forall>c\<in>set (Title_from p s). isAlnum c \<or> c = sp"
  by (induction s arbitrary: p) (auto simp: isAlnum_toTitle toTitle_sp)

lemma titleize_alnum: "c \<in> set (titleize s) \<Longrightarrow> isAlnum c"
proof -
  have "\<forall>c\<in>set (blank s). isAlnum c \<or> c = sp"
    by (auto simp: not_notWord)
  from Title_from_alnum [OF this, of sp] show "c \<in> set (titleize s) \<Longrightarrow> isAlnum c"
    by (auto simp: titleize_def Title_def)
qed

lemmas titleize_eval =
  titleize_def Title_def notWord_def isSeparator_def toTitle_def char_tables

text \<open>
  Claim C9. The naming transform is a function of the template name alone. It equals the
  transform of the specification (split the name at the characters the expression
  \<open>notWord\<close> matches, which are all characters that are not alphanumeric, the underscore
  among them; put the first character of each segment in upper case; concatenate), no
  stripped character remains in its result, and two distinct names that differ only in
  stripped punctuation, \<open>a.b\<close> and \<open>a-b\<close>, get the same identifier.
\<close>

theorem titleize_transform:
  "titleize s = titleize_spec s
   \<and> (\<forall>c\<in>set (titleize s). isAlnum c \<and> \<not> notWord c)
   \<and> titleize ''a.b'' = titleize ''a-b'' \<and> ''a.b'' \<noteq> ''a-b''"
proof -
  have "titleize ''a.b'' = titleize ''a-b''"
    by (simp add: titleize_eval)
  then show ?thesis
    using titleize_is_spec [of s] titleize_alnum [of _ s] by (auto simp: not_notWord)
qed

theorem titleize_transform_witness:
  "titleize ''layouts/base_page.twig'' = ''LayoutsBasePageTwig''
   \<and> titleize_spec ''layouts/base_page.twig'' = ''LayoutsBasePageTwig''
   \<and> isAlnum (CHR ''L'') \<and> \<not> notWord (CHR ''L'')"
  using titleize_transform [of "''layouts/base_page.twig''"]
  by (simp add: titleize_eval)

section \<open>Steps of the walk and the fields they touch\<close>

lemma writeString_fields [simp]:
  "out (writeString s g) = out g @ s"
  "stack (writeString s g) = stack g"
  "tabs (writeString s g) = tabs g"
  "blocks (writeString s g) = blocks g"
  "args (writeString s g) = args g"
  "imports (writeString s g) = imports g"
  "name (writeString s g) = name g"
  "root (writeString s g) = root g"
  "pkgName (writeString s g) = pkgName g"
  by (simp_all add: writeString_def)

lemma addImport_fields [simp]:
  "out (addImport i g) = out g"
  "stack (addImport i g) = stack g"
  "tabs (addImport i g) = tabs g"
  "blocks (addImport i g) = blocks g"
  "args (addImport i g) = args g"
  "name (addImport i g) = name g"
  "root (addImport i g) = root g"
  "pkgName (addImport i g) = pkgName g"
  by (simp_all add: addImport_def)

lemma indent_cong [simp]:
  "indent (writeString s g) = indent g"
  "indent (addImport i g) = indent g"
  by (simp_all add: indent_def)

lemma printStmt_fields [simp]:
  "stack (printStmt v l off g) = stack g"
  "tabs (printStmt v l off g) = tabs g"
  "blocks (printStmt v l off g) = blocks g"
  "args (printStmt v l off g) = args g"
  "name (printStmt v l off g) = name g"
  "root (printStmt v l off g) = root g"
  "pkgName (printStmt v l off g) = pkgName g"
  by (simp_all add: printStmt_def Let_def)

lemma forOpen_fields [simp]:
  "stack (forOpen v l off k x g) = stack g"
  "tabs (forOpen v l off k x g) = tabs g + 1"
  "blocks (forOpen v l off k x g) = blocks g"
  "name (forOpen v l off k x g) = name g"
  "root (forOpen v l off k x g) = root g"
  "pkgName (forOpen v l off k x g) = pkgName g"
  by (simp_all add: forOpen_def Let_def)

lemma forClose_fields [simp]:
  "stack (forClose k x g) = stack g"
  "tabs (forClose k x g) = tabs g - 1"
  "blocks (forClose k x g) = blocks g"
  "name (forClose k x g) = name g"
  "root (forClose k x g) = root g"
  "pkgName (forClose k x g) = pkgName g"
  by (simp_all add: forClose_def Let_def)

lemma ifOpen_fields [simp]:
  "stack (ifOpen c l off g) = stack g"
  "tabs (ifOpen c l off g) = tabs g + (if isFunction c then 2 else 1)"
  "blocks (ifOpen c l off g) = blocks g"
  "args (ifOpen c l off g) = args g"
  "name (ifOpen c l off g) = name g"
  "root (ifOpen c l off g) = root g"
  "pkgName (ifOpen c l off g) = pkgName g"
  by (simp_all add: ifOpen_def Let_def)

lemma elseOpen_fields [simp]:
  "stack (elseOpen g) = stack g"
  "tabs (elseOpen g) = tabs g + 1"
  "blocks (elseOpen g) = blocks g"
  "args (elseOpen g) = args g"
  "name (elseOpen g) = name g"
  "root (elseOpen g) = root g"
  "pkgName (elseOpen g) = pkgName g"
  by (simp_all add: elseOpen_def Let_def)

lemma ifClose_fields [simp]:
  "stack (ifClose c g) = stack g"
  "tabs (ifClose c g) = tabs g - (if isFunction c then 1 else 0)"
  "blocks (ifClose c g) = blocks g"
  "args (ifClose c g) = args g"
  "name (ifClose c g) = name g"
  "root (ifClose c g) = root g"
  "pkgName (ifClose c g) = pkgName g"
  by (simp_all add: ifClose_def Let_def)

lemma popStack_Done:
  "popStack g = Done e g' \<Longrightarrow>
     e = None \<and> stack g' = butlast (stack g) \<and> stack g' \<noteq> [] \<and> tabs g' = tabs g
     \<and> blocks g' = blocks g \<and> pkgName g' = pkgName g \<and> out g' = out g
     \<and> name g' = last (stack g') \<and> root g' = (length (stack g') = 1)"
  by (auto simp: popStack_def Let_def split: if_splits)

section \<open>Invariants of walk and generate\<close>

lemma holds_simps [simp]:
  "holds P (Done x g) = P g"
  "holds P OutOfFuel"
  "holds P Panic"
  by (simp_all add: holds_def)

lemma holds_mono: "holds P r \<Longrightarrow> (\<And>g. P g \<Longrightarrow> Q g) \<Longrightarrow> holds Q r"
  by (cases r) simp_all

lemma holds_Done: "holds P r \<Longrightarrow> r = Done x g \<Longrightarrow> P g"
  by simp

lemma holdsI: "(\<And>x g'. r = Done x g' \<Longrightarrow> P g') \<Longrightarrow> holds P r"
  by (cases r) simp_all

lemma holds_popStack:
  "holds (\<lambda>g'. stack g' = butlast (stack g) \<and> stack g' \<noteq> [] \<and> tabs g' = tabs g
     \<and> blocks g' = blocks g \<and> pkgName g' = pkgName g \<and> out g' = out g
     \<and> args g' = args g \<and> imports g' = imports g
     \<and> name g' = last (stack g') \<and> root g' = (length (stack g') = 1)) (popStack g)"
  by (simp add: popStack_def Let_def)

lemma pushName_fields [simp]:
  "stack (pushName nm g) = stack g @ [nm]"
  "tabs (pushName nm g) = tabs g"
  "blocks (pushName nm g) = blocks g"
  "args (pushName nm g) = args g"
  "imports (pushName nm g) = imports g"
  "out (pushName nm g) = out g"
  "name (pushName nm g) = nm"
  "root (pushName nm g) = (stack g = [])"
  "pkgName (pushName nm g) = pkgName g"
  by (simp_all add: pushName_def)

lemma generate_unfold:
  "generate L n nm g =
     (case L nm of
        Inl e \<Rightarrow> Done (Some e) g
      | Inr tree \<Rightarrow>
         (case n of
            0 \<Rightarrow> OutOfFuel
          | Suc m \<Rightarrow>
             (case walk L m tree (pushName nm g) of
                Done _ g1 \<Rightarrow> (if stack g \<noteq> [] then popStack g1 else Done None g1)
              | OutOfFuel \<Rightarrow> OutOfFuel
              | Panic \<Rightarrow> Panic)))"
  by (simp add: generate.simps pushName_def Let_def split: sum.split nat.split res.split)

lemma walk_tabs_holds:
  "holds (\<lambda>g'. tabs g' = tabs g) (walk L n nd g)"
  "holds (\<lambda>g'. tabs g' = tabs g) (walk_all L n cs g)"
  "holds (\<lambda>g'. tabs g' = tabs g) (generate L n nm g)"
proof (induction L n nd g and L n cs g and L n nm g
       rule: walk_walk_all_generate.induct)
  case (1 L n parent cs g)
  then show ?case
    by (fastforce split: option.split res.split)
next
  case (2 L n cs g)
  then show ?case by simp
next
  case (3 L n tpl g)
  then show ?case by (auto split: option.split)
next
  case (4 L n line offset dat g)
  then show ?case by (auto simp: Let_def)
next
  case (5 L n line offset x g)
  then show ?case by (auto split: sum.split)
next
  case (6 L n line offset nm b g)
  then show ?case by (auto simp: Let_def split: list.split)
next
  case (7 L n line offset key val x b g)
  then show ?case by (auto split: sum.split res.split)
next
  case (8 L n line offset c b els g)
  then show ?case
    by (fastforce simp: Let_def split: sum.split res.split)
next
  case (9 L n g)
  then show ?case by simp
next
  case (10 L n g)
  then show ?case by simp
next
  case (11 L n c cs g)
  then show ?case by (auto split: res.split option.split)
next
  case (12 L n nm g)
  have IH: "holds (\<lambda>g'. tabs g' = tabs g) (walk L m tree (pushName nm g))"
    if "L nm = Inr tree" "n = Suc m" for tree m
    using "12.IH" [OF that refl refl refl] by (simp add: pushName_def)
  show ?case
    unfolding generate_unfold
    by (auto split: sum.split nat.split res.split intro!: holdsI
          dest!: popStack_Done dest: IH [THEN holds_Done])
qed

lemma walk_tabs: "walk L n nd g = Done e g' \<Longrightarrow> tabs g' = tabs g"
  using walk_tabs_holds(1) [of g L n nd] by simp

lemma keeps_refl [simp]: "keeps g g"
  by (simp add: keeps_def)

lemma keeps_trans: "keeps g g1 \<Longrightarrow> keeps g1 g2 \<Longrightarrow> keeps g g2"
  unfolding keeps_def by metis

lemma keeps_steps [simp]:
  "keeps g (printStmt v l off g)"
  "keeps (forOpen v l off k x g) g' = keeps g g'"
  "keeps g (forClose k x g') = keeps g g'"
  "keeps (ifOpen c l off g) g' = keeps g g'"
  "keeps (elseOpen g) g' = keeps g g'"
  "keeps g (ifClose c g') = keeps g g'"
  "keeps (g\<lparr>tabs := t\<rparr>) g' = keeps g g'"
  "keeps g (g'\<lparr>tabs := t\<rparr>) = keeps g g'"
  "keeps g (writeString s g') = keeps g g'"
  "keeps g (addImport i g') = keeps g g'"
  by (simp_all add: keeps_def blocks_ok_def)

lemma holds_keeps_trans:
  assumes "keeps g g1" "holds (keeps g1) r"
  shows "holds (keeps g) r"
proof (cases r)
  case (Done x g2)
  with assms keeps_trans [of g g1 g2] show ?thesis by simp
qed simp_all

lemma keeps_register:
  "stack g = r0 # rs \<Longrightarrow> keeps g (g\<lparr>blocks := (blocks g)(nm \<mapsto> Renderer r0 nm b)\<rparr>)"
  by (simp add: keeps_def blocks_ok_def)

lemma blocks_ok_eq:
  "stack g' \<noteq> [] \<Longrightarrow> hd (stack g') = hd (stack g) \<Longrightarrow> blocks g' = blocks g \<Longrightarrow>
   blocks_ok g' = blocks_ok g"
  by (simp add: blocks_ok_def)

lemma keeps_push_pop:
  assumes "keeps (pushName nm g) g1" "popStack g1 = Done e g2" "stack g \<noteq> []"
  shows "keeps g g2"
proof -
  from popStack_Done [OF assms(2)]
  have pop: "stack g2 = butlast (stack g1)" "blocks g2 = blocks g1" by simp_all
  from assms(1,3) have g1: "stack g1 = stack g @ [nm]"
    and ok1: "blocks_ok (pushName nm g) \<Longrightarrow> blocks_ok g1"
    by (simp_all add: keeps_def)
  have st: "stack g2 = stack g" using pop(1) g1 by simp
  have a: "blocks_ok (pushName nm g) = blocks_ok g"
    using assms(3) by (intro blocks_ok_eq) simp_all
  have b: "blocks_ok g2 = blocks_ok g1"
    using assms(3) st g1 pop(2) by (intro blocks_ok_eq) simp_all
  show ?thesis
    unfolding keeps_def using st a b ok1 by blast
qed

lemma keeps_empty: "stack g = [] \<Longrightarrow> keeps g g'"
  by (simp add: keeps_def)

lemma holds_keeps_bind:
  assumes "holds (keeps g) r"
    and "\<And>x g1. r = Done x g1 \<Longrightarrow> holds (keeps g1) (k x g1)"
  shows "holds (keeps g) (case r of Done x g1 \<Rightarrow> k x g1 | OutOfFuel \<Rightarrow> OutOfFuel | Panic \<Rightarrow> Panic)"
proof (cases r)
  case (Done x g1)
  with assms(1) have "keeps g g1" by simp
  with assms(2) [OF Done] show ?thesis
    using Done by (simp add: holds_keeps_trans)
qed simp_all

lemma walk_keeps_holds:
  "holds (keeps g) (walk L n nd g)"
  "holds (keeps g) (walk_all L n cs g)"
  "holds (keeps g) (generate L n nm g)"
proof (induction L n nd g and L n cs g and L n nm g
       rule: walk_walk_all_generate.induct)
  case (1 L n parent cs g)
  show ?case
  proof (cases parent)
    case None
    with "1.IH"(1) show ?thesis by simp
  next
    case P: (Some tpl)
    show ?thesis
    proof (cases "evaluate tpl")
      case None
      with P show ?thesis by simp
    next
      case E: (Some nm)
      have "holds (keeps g)
              (case generate L n nm g of
                 Done x g1 \<Rightarrow> (case x of None \<Rightarrow> walk L n (BodyNode cs) g1
                                | Some e \<Rightarrow> Done (Some e) g1)
               | OutOfFuel \<Rightarrow> OutOfFuel | Panic \<Rightarrow> Panic)"
        using "1.IH"(2) [OF P E] "1.IH"(3) [OF P E]
        by (intro holds_keeps_bind) (auto split: option.split)
      then show ?thesis
        using P E by (simp split: res.split option.split)
    qed
  qed
next
  case (2 L n cs g)
  then show ?case by simp
next
  case (3 L n tpl g)
  then show ?case by (auto split: option.split)
next
  case (4 L n line offset dat g)
  then show ?case by (auto simp: Let_def)
next
  case (5 L n line offset x g)
  then show ?case by (auto split: sum.split)
next
  case (6 L n line offset nm b g)
  then show ?case
    by (auto simp: Let_def keeps_def blocks_ok_def split: list.split)
next
  case (7 L n line offset key val x b g)
  then show ?case by (auto split: sum.split res.split)
next
  case (8 L n line offset c b els g)
  show ?case
  proof (cases "walkExpr g c")
    case (Inl e)
    then show ?thesis by simp
  next
    case (Inr cond)
    have "holds (keeps g)
            (case walk L n b (ifOpen cond line offset g) of
               Done x g1 \<Rightarrow>
                 (let g2 = g1\<lparr>tabs := tabs g1 - 1\<rparr>
                  in if length els > 0 then
                       (case walk L n (BodyNode els) (elseOpen g2) of
                          Done y g3 \<Rightarrow> Done None (ifClose cond (g3\<lparr>tabs := tabs g3 - 1\<rparr>))
                        | OutOfFuel \<Rightarrow> OutOfFuel | Panic \<Rightarrow> Panic)
                     else Done None (ifClose cond g2))
             | OutOfFuel \<Rightarrow> OutOfFuel | Panic \<Rightarrow> Panic)"
    proof (intro holds_keeps_bind, goal_cases)
      case 1
      from "8.IH"(1) [OF Inr] show ?case by simp
    next
      case (2 x g1)
      from "8.IH"(2) [OF Inr 2 refl]
      show ?case by (auto simp: Let_def split: res.split)
    qed
    then show ?thesis
      using Inr by simp
  qed
next
  case (9 L n g)
  then show ?case by simp
next
  case (10 L n g)
  then show ?case by simp
next
  case (11 L n c cs g)
  have "holds (keeps g)
          (case walk L n c g of
             Done x g1 \<Rightarrow> (case x of None \<Rightarrow> walk_all L n cs g1
                            | Some e \<Rightarrow> Done (Some e) g1)
           | OutOfFuel \<Rightarrow> OutOfFuel | Panic \<Rightarrow> Panic)"
    using "11.IH"(1) "11.IH"(2)
    by (intro holds_keeps_bind) (auto split: option.split)
  then show ?case
    by (simp split: res.split option.split)
next
  case (12 L n nm g)
  have IH: "holds (keeps (pushName nm g)) (walk L m tree (pushName nm g))"
    if "L nm = Inr tree" "n = Suc m" for tree m
    using "12.IH" [OF that refl refl refl] by (simp add: pushName_def)
  show ?case
    unfolding generate_unfold
    by (auto split: sum.split nat.split res.split intro!: holdsI
          dest: IH [THEN holds_Done] intro: keeps_push_pop keeps_empty)
qed

section \<open>The registry of block functions\<close>

lemma walk_all_append:
  "walk_all L n (xs @ ys) g =
     (case walk_all L n xs g of Done None g1 \<Rightarrow> walk_all L n ys g1 | r \<Rightarrow> r)"
  by (induction xs arbitrary: g) (auto split: res.split option.split)

lemma walk_keepsBlock:
  "keepsBlock nm nd \<Longrightarrow> walk L n nd g = Done e g' \<Longrightarrow> blocks g' nm = blocks g nm"
  by (cases nd) (auto simp: keepsBlock_def Let_def split: sum.splits list.splits if_splits)

lemma walk_all_keepsBlock:
  "\<forall>x\<in>set cs. keepsBlock nm x \<Longrightarrow> walk_all L n cs g = Done e g' \<Longrightarrow>
     blocks g' nm = blocks g nm"
proof (induction cs arbitrary: g)
  case Nil
  then show ?case by simp
next
  case (Cons c cs)
  from Cons.prems(2) obtain g1 where
    c: "walk L n c g = Done None g1 \<and> walk_all L n cs g1 = Done e g'
        \<or> walk L n c g = Done e g'"
    by (auto split: res.splits option.splits)
  then show ?case
    using Cons.IH [of g1] Cons.prems(1) walk_keepsBlock [of nm c L n g]
    by auto
qed

lemma walk_keeps:
  assumes "stack g \<noteq> []" "walk L n nd g = Done e g'"
  shows "stack g' = stack g" "blocks_ok g \<Longrightarrow> blocks_ok g'"
  using walk_keeps_holds(1) [of g L n nd] assms by (simp_all add: keeps_def)

lemma walk_all_keeps:
  assumes "stack g \<noteq> []" "walk_all L n cs g = Done e g'"
  shows "stack g' = stack g" "blocks_ok g \<Longrightarrow> blocks_ok g'"
  using walk_keeps_holds(2) [of g L n cs] assms by (simp_all add: keeps_def)

lemma generate_keeps:
  assumes "stack g \<noteq> []" "generate L n nm g = Done e g'"
  shows "stack g' = stack g" "blocks_ok g \<Longrightarrow> blocks_ok g'"
  using walk_keeps_holds(3) [of g L n nm] assms by (simp_all add: keeps_def)

lemma walk_Block:
  "stack g \<noteq> [] \<Longrightarrow>
     \<exists>g1. walk L n (BlockNode line offset nm b) g = Done None g1
          \<and> blocks g1 = (blocks g)(nm \<mapsto> Renderer (hd (stack g)) nm b)"
  by (cases "stack g") (simp_all add: Let_def)

lemma derived_block_wins:
  assumes ne: "stack g \<noteq> []"
    and run: "walk L n (ModuleNode (Some (StringExpr p))
                (pre @ BlockNode line offset nm b # post)) g = Done None g'"
    and post: "\<forall>x\<in>set post. keepsBlock nm x"
  shows "blocks g' nm = Some (Renderer (hd (stack g)) nm b)"
proof -
  from run obtain g1 where
    gen: "generate L n p g = Done None g1" and
    body: "walk_all L n (pre @ BlockNode line offset nm b # post) g1 = Done None g'"
    by (auto simp: evaluate_def split: res.splits option.splits)
  from generate_keeps(1) [OF ne gen] have s1: "stack g1 = stack g" .
  from body obtain g2 where
    pre: "walk_all L n pre g1 = Done None g2" and
    rest: "walk_all L n (BlockNode line offset nm b # post) g2 = Done None g'"
    by (auto simp: walk_all_append split: res.splits option.splits)
  from walk_all_keeps(1) [OF _ pre] ne s1 have s2: "stack g2 = stack g" by simp
  from walk_Block [of g2 L n line offset nm b] ne s2 obtain g3 where
    blk: "walk L n (BlockNode line offset nm b) g2 = Done None g3" and
    reg: "blocks g3 = (blocks g2)(nm \<mapsto> Renderer (hd (stack g)) nm b)"
    by auto
  from rest blk have "walk_all L n post g3 = Done None g'"
    by (simp del: walk.simps)
  from walk_all_keepsBlock [OF post this] reg show ?thesis by simp
qed

lemma blocks_ok_steps [simp]:
  "blocks_ok (writeString s g) = blocks_ok g"
  "blocks_ok (g\<lparr>out := s\<rparr>) = blocks_ok g"
  by (simp_all add: blocks_ok_def)

lemma callRenderer_keeps:
  assumes "stack g \<noteq> []" "blocks_ok g" "callRenderer L n r g = Done u g'"
  shows "stack g' = stack g \<and> blocks_ok g'"
proof -
  let ?g0 = "writeString (''func block'' @ titleize (rootName r) @ titleize (blockName r)
                @ ''(env *stick.Env, output io.Writer, ctx map[string]stick.Value) {''
                @ [nl]) g"
  from assms(3) obtain e g1 where
    w: "walk L n (blockBody r) ?g0 = Done e g1" and g': "g' = writeString ''}'' g1"
    by (auto simp: callRenderer_def Let_def split: res.splits)
  have s0: "stack ?g0 \<noteq> []" and b0: "blocks_ok ?g0"
    using assms(1,2) by simp_all
  from walk_keeps(1) [OF s0 w] have s1: "stack g1 = stack g" by simp
  from walk_keeps(2) [OF s0 w b0] have b1: "blocks_ok g1" .
  from s1 b1 g' show ?thesis by simp
qed

lemma renderBlocks_registry:
  "registry_ok g \<Longrightarrow> renderBlocks L n ks funcs g = Done fs g' \<Longrightarrow> registry_ok g'"
proof (induction ks arbitrary: funcs g)
  case Nil
  then show ?case by simp
next
  case (Cons k ks)
  show ?case
  proof (cases "blocks g k")
    case None
    with Cons show ?thesis by simp
  next
    case (Some r)
    with Cons.prems(1) have ne: "stack g \<noteq> []" and ok: "blocks_ok g"
      by (auto simp: registry_ok_def split: if_splits)
    from Cons.prems(2) Some obtain u g1 where
      c: "callRenderer L n r (g\<lparr>out := []\<rparr>) = Done u g1" and
      r: "renderBlocks L n ks (funcs @ [out g1]) g1 = Done fs g'"
      by (auto split: res.splits)
    have "stack (g\<lparr>out := []\<rparr>) \<noteq> []" "blocks_ok (g\<lparr>out := []\<rparr>)"
      using ne ok by simp_all
    from callRenderer_keeps [OF this c] ne have "registry_ok g1"
      by (simp add: registry_ok_def)
    from Cons.IH [OF this r] show ?thesis .
  qed
qed

lemma generate_registry:
  assumes "registry_ok g" "generate L n nm g = Done e g'"
  shows "registry_ok g'"
proof (cases "stack g = []")
  case False
  with generate_keeps [OF False assms(2)] assms(1) show ?thesis
    by (simp add: registry_ok_def)
next
  case True
  show ?thesis
  proof (cases "L nm")
    case (Inl err)
    with assms show ?thesis by (simp add: generate_unfold)
  next
    case (Inr tree)
    with assms(2) True obtain m x where
      w: "walk L m tree (pushName nm g) = Done x g'"
      by (auto simp: generate_unfold split: nat.splits res.splits)
    have "blocks_ok (pushName nm g)"
      using assms(1) True by (simp add: registry_ok_def blocks_ok_def)
    from walk_keeps [OF _ w] this show ?thesis
      by (simp add: registry_ok_def)
  qed
qed

lemma Generate_registry:
  assumes "registry_ok g" "Generate L n border iorder nm g = Done r g'"
  shows "registry_ok g'"
proof (cases "generate L n nm g")
  case (Done e g1)
  from generate_registry [OF assms(1) Done] have ok1: "registry_ok g1" .
  show ?thesis
  proof (cases e)
    case (Some err)
    with Done assms(2) ok1 show ?thesis by (auto simp: Generate_def)
  next
    case None
    with Done assms(2) obtain fs where "renderBlocks L n border [] g1 = Done fs g'"
      by (auto simp: Generate_def output_def Let_def split: res.splits)
    from renderBlocks_registry [OF ok1 this] show ?thesis .
  qed
qed (use assms(2) in \<open>simp_all add: Generate_def\<close>)

lemma registry_ok_New: "registry_ok (NewGenerator pkg)"
  by (simp add: registry_ok_def NewGenerator_def)

section \<open>Expression translation and statements\<close>

lemma walkExpr_hasError:
  "walkExpr g e = Inr v \<Longrightarrow> hasError v \<Longrightarrow>
     isFunction v \<and> resultantName v = ''val''
     \<and> (\<exists>cont attr c a. e = GetAttrExpr cont attr []
           \<and> walkExpr g cont = Inr c \<and> walkExpr g attr = Inr a
           \<and> body v = ''val, err := stick.GetAttr('' @ resultantName c @ '', ''
                          @ resultantName a @ '')'')"
  by (cases "(g, e)" rule: walkExpr.cases)
     (auto simp: newNameExpr_def emptyExpr_def Let_def split: sum.splits if_splits)

text \<open>
  Claim C8. Whenever \<open>walkExpr\<close> succeeds with a result marked fallible (\<open>hasError\<close>),
  the preamble of the result (\<open>body\<close>) is not empty.
\<close>

theorem walkExpr_fallible_preamble:
  "walkExpr g e = Inr v \<Longrightarrow> hasError v \<Longrightarrow> body v \<noteq> []"
  using walkExpr_hasError [of g e v] by auto

theorem walkExpr_fallible_preamble_witness:
  "walkExpr (NewGenerator ''main'') (GetAttrExpr (NameExpr ''user'') (StringExpr ''name'') [])
     = Inr \<lparr> body = ''val, err := stick.GetAttr(ctx['' @ [dq] @ ''user'' @ [dq] @ ''], ''
                      @ [dq] @ ''name'' @ [dq] @ '')'',
             isFunction = True, hasError = True, resultantName = ''val'' \<rparr>
   \<and> body \<lparr> body = ''val, err := stick.GetAttr(ctx['' @ [dq] @ ''user'' @ [dq] @ ''], ''
                      @ [dq] @ ''name'' @ [dq] @ '')'',
             isFunction = True, hasError = True, resultantName = ''val'' \<rparr> \<noteq> []"
  using walkExpr_fallible_preamble
    [of "NewGenerator ''main''" "GetAttrExpr (NameExpr ''user'') (StringExpr ''name'') []"]
  by (simp add: NewGenerator_def newNameExpr_def)

lemma walkExpr_error_iff: "(\<exists>err. walkExpr g e = Inl err) \<longleftrightarrow> unsupported e"
  by (induction g e rule: walkExpr.induct)
     (auto simp: Let_def newNameExpr_def emptyExpr_def split: sum.splits)

lemma walkExpr_error_message: "walkExpr g e = Inl err \<Longrightarrow> unsupportedMessage err"
  by (induction g e arbitrary: err rule: walkExpr.induct)
     (auto simp: Let_def unsupportedMessage_def split: sum.splits if_splits)

lemma indent_tabs [simp]: "indent (g\<lparr>tabs := t\<rparr>) = indentAt t"
  by (simp add: indent_def indentAt_def)

lemma indent_indentAt: "indent g = indentAt (tabs g)"
  by (simp add: indent_def indentAt_def)

lemma traceLine_cong [simp]:
  "traceLine (addImport i g) l off = traceLine g l off"
  by (simp add: traceLine_def)

text \<open>
  Claim C5. A print statement whose expression translates to \<open>v\<close> returns without error
  and appends to the output, after the trace comment: when \<open>v\<close> is fallible, a new block
  scope holding the preamble and the write statement, the write inside
  \<open>if err == nil\<close>; otherwise the write of the result reference with no guard (after the
  preamble and inside a scope when \<open>v\<close> has a preamble to place, alone when it has none).
\<close>

theorem print_guards_fallible:
  "walkExpr g x = Inr v \<Longrightarrow>
   (\<exists>g'. walk L n (PrintNode line offset x) g = Done None g'
      \<and> out g' = out g @ traceLine g line offset @
          (if hasError v then
             indentAt (tabs g) @ ''{'' @ [nl]
             @ indentAt (tabs g + 1) @ body v @ [nl]
             @ indentAt (tabs g + 1) @ ''if err == nil {'' @ [nl]
             @ indentAt (tabs g + 2) @ ''fmt.Fprint(output, '' @ resultantName v @ '')'' @ [nl]
             @ indentAt (tabs g + 1) @ ''}'' @ [nl]
             @ indentAt (tabs g) @ ''}'' @ [nl]
           else if isFunction v then
             indentAt (tabs g) @ ''{'' @ [nl]
             @ indentAt (tabs g + 1) @ body v @ [nl]
             @ indentAt (tabs g + 1) @ ''fmt.Fprint(output, '' @ resultantName v @ '')'' @ [nl]
             @ indentAt (tabs g) @ ''}'' @ [nl]
           else
             indentAt (tabs g) @ ''fmt.Fprint(output, '' @ resultantName v @ '')'' @ [nl]))"
  using walkExpr_hasError [of g x v]
  by (auto simp: printStmt_def Let_def fprint_def indent_indentAt add.commute)

lemma generate_error:
  "generate L n nm g = Done (Some e) g' \<Longrightarrow> L nm = Inl e \<and> g' = g"
  unfolding generate_unfold
  by (auto split: sum.splits nat.splits res.splits if_splits dest: popStack_Done)

lemma generate_load_error: "L nm = Inl e \<Longrightarrow> generate L n nm g = Done (Some e) g"
  by (simp add: generate_unfold)

text \<open>
  Claim C10. When \<open>Generate\<close> returns an error, the text it returns is empty and the
  generator is exactly the generator before the call: nothing is rolled back, so stack,
  name, imports, blocks and output buffer keep all that earlier calls left in them, and
  the next call starts from them. \<open>Generate\<close> returns an error exactly when the loader
  fails on the requested name, which is before the call has changed any field.
\<close>

theorem Generate_error_keeps_state:
  "Generate L n border iorder nm g = Done (s, Some e) g' \<longleftrightarrow>
     L nm = Inl e \<and> s = [] \<and> g' = g"
proof
  assume "Generate L n border iorder nm g = Done (s, Some e) g'"
  then show "L nm = Inl e \<and> s = [] \<and> g' = g"
    unfolding Generate_def
    by (auto split: res.splits option.splits dest: generate_error)
next
  assume "L nm = Inl e \<and> s = [] \<and> g' = g"
  then show "Generate L n border iorder nm g = Done (s, Some e) g'"
    by (simp add: Generate_def generate_load_error)
qed

section \<open>Running the examples\<close>

lemmas gen_eval =
  Generate_def output_def generate_unfold pushName_def NewGenerator_def addImport_def
  writeString_def traceLine_def indent_def itoa_def natToDec.simps digits_def
  printStmt_def forOpen_def forClose_def forKey_def ifOpen_def elseOpen_def ifClose_def
  popStack_def callRenderer_def importLines_def quoted_def evaluate_def newNameExpr_def emptyExpr_def
  fprint_def Let_def resultOf_def stateOf_def

lemmas page_eval =
  exampleLoader_def helloPage_def basePage_def childPage_def methodPage_def methodCall_def
  twoBlocksPage_def loopMethodPage_def dynExtendsPage_def dynIncludePage_def sumPage_def innerLoop_def
  outerLoop_def OpBinaryEqual_def

lemma ex_bool: "(\<exists>y::bool. y) \<longleftrightarrow> True" "(\<forall>x::bool. \<not> x) \<longleftrightarrow> False"
  by auto

lemma Generate_hello:
  "Generate exampleLoader (Suc 0) [] stdImports ''hello'' (NewGenerator ''main'')
     = Done (unitHead ''main'' @ join [nl, tab] (importLines stdImports afterHello)
               @ unitTail [] ''hello'' helloBody, None) afterHello"
  by (simp add: afterHello_def gen_eval exampleLoader_def helloPage_def helloBody_def stdImports_def)

lemma afterHello_fields:
  "out afterHello = helloBody" "stack afterHello = [''hello'']" "name afterHello = ''hello''"
  "imports afterHello ''fmt'' = Some True" "blocks afterHello = Map.empty"
  "pkgName afterHello = ''main''" "tabs afterHello = 1" "root afterHello"
  by (simp_all add: afterHello_def gen_eval exampleLoader_def helloPage_def helloBody_def)

lemma Generate_hello_again:
  "Generate exampleLoader (Suc 0) [] stdImports ''hello'' afterHello
     = Done (unitHead ''main'' @ join [nl, tab] (importLines stdImports afterHello)
               @ unitTail [] ''hello'' (helloBody @ helloBody), None)
         (afterHello\<lparr>out := helloBody @ helloBody\<rparr>)"
  apply (simp add: afterHello_def gen_eval exampleLoader_def helloPage_def helloBody_def stdImports_def)
  done

text \<open>Claim C10 on a template the loader does not find, after \<open>hello\<close> was compiled.\<close>

theorem Generate_error_keeps_state_witness:
  "Generate exampleLoader (Suc 0) [] stdImports ''missing'' afterHello
     = Done ([], Some (Err ''template not found'')) afterHello
   \<and> stack afterHello = [''hello''] \<and> name afterHello = ''hello''
   \<and> out afterHello = helloBody \<and> imports afterHello ''fmt'' = Some True
   \<and> exampleLoader ''missing'' = Inl (Err ''template not found'')"
proof -
  have run: "Generate exampleLoader (Suc 0) [] stdImports ''missing'' afterHello
               = Done ([], Some (Err ''template not found'')) afterHello"
    by (simp add: Generate_def generate_unfold exampleLoader_def)
  from Generate_error_keeps_state [THEN iffD1, OF run] run show ?thesis
    by (simp add: afterHello_fields)
qed

section \<open>Recompiling a template\<close>

text \<open>
  Claim C6 does not hold as it stands, on two counts.
  Two calls of \<open>Generate\<close> for the same name on one generator: the second call appends to
  the output buffer the first call filled, so with the same import list and the same
  order of its lines the two texts differ. And two compilations of \<open>twoBlocksPage\<close>, each
  on a new generator, that visit the two blocks in different orders: the block functions
  stand in different orders in the two texts, the import lists being the same.
\<close>

theorem regenerate_same_instance_differs:
  "Generate exampleLoader (Suc 0) [] stdImports ''hello'' (NewGenerator ''main'')
     = Done (unitHead ''main'' @ join [nl, tab] (importLines stdImports afterHello)
               @ unitTail [] ''hello'' helloBody, None) afterHello
   \<and> Generate exampleLoader (Suc 0) [] stdImports ''hello'' afterHello
     = Done (unitHead ''main'' @ join [nl, tab] (importLines stdImports afterHello)
               @ unitTail [] ''hello'' (helloBody @ helloBody), None)
         (afterHello\<lparr>out := helloBody @ helloBody\<rparr>)
   \<and> unitHead ''main'' @ join [nl, tab] (importLines stdImports afterHello)
               @ unitTail [] ''hello'' helloBody
     \<noteq> unitHead ''main'' @ join [nl, tab] (importLines stdImports afterHello)
               @ unitTail [] ''hello'' (helloBody @ helloBody)
   \<and> resultOf (Generate exampleLoader (Suc 0) [''a'', ''b''] stdImports ''two''
                 (NewGenerator ''main''))
     = Some (unitHead ''main'' @ join [nl, tab] (map quoted stdImports)
               @ unitTail [blockTwoA, blockTwoB] ''two'' [], None)
   \<and> resultOf (Generate exampleLoader (Suc 0) [''b'', ''a''] stdImports ''two''
                 (NewGenerator ''main''))
     = Some (unitHead ''main'' @ join [nl, tab] (map quoted stdImports)
               @ unitTail [blockTwoB, blockTwoA] ''two'' [], None)
   \<and> unitHead ''main'' @ join [nl, tab] (map quoted stdImports)
               @ unitTail [blockTwoA, blockTwoB] ''two'' []
     \<noteq> unitHead ''main'' @ join [nl, tab] (map quoted stdImports)
               @ unitTail [blockTwoB, blockTwoA] ''two'' []"
proof -
  have hello: "unitTail [] ''hello'' helloBody \<noteq> unitTail [] ''hello'' (helloBody @ helloBody)"
    by (simp add: unitTail_def helloBody_def)
  have two: "unitTail [blockTwoA, blockTwoB] ''two'' [] \<noteq> unitTail [blockTwoB, blockTwoA] ''two'' []"
    by (simp add: unitTail_def blockTwoA_def blockTwoB_def)
  have ab: "resultOf (Generate exampleLoader (Suc 0) [''a'', ''b''] stdImports ''two''
                 (NewGenerator ''main''))
     = Some (unitHead ''main'' @ join [nl, tab] (map quoted stdImports)
               @ unitTail [blockTwoA, blockTwoB] ''two'' [], None)"
    by (simp add: ex_bool eval_nat_numeral page_eval gen_eval stdImports_def titleize_eval
          blockTwoA_def blockTwoB_def)
  have ba: "resultOf (Generate exampleLoader (Suc 0) [''b'', ''a''] stdImports ''two''
                 (NewGenerator ''main''))
     = Some (unitHead ''main'' @ join [nl, tab] (map quoted stdImports)
               @ unitTail [blockTwoB, blockTwoA] ''two'' [], None)"
    by (simp add: ex_bool eval_nat_numeral page_eval gen_eval stdImports_def titleize_eval
          blockTwoA_def blockTwoB_def)
  from hello two show ?thesis
    using Generate_hello Generate_hello_again ab ba by simp
qed

lemma importLines_mset:
  assumes "mset io1 = mset io2"
  shows "mset (importLines io1 g) = mset (importLines io2 g)"
proof -
  have "mset (filter (\<lambda>v. imports g v \<noteq> None) io1) = mset (filter (\<lambda>v. imports g v \<noteq> None) io2)"
    using assms by (simp only: mset_filter)
  then show ?thesis
    unfolding importLines_def by (simp only: mset_map)
qed

lemma Generate_Done_None:
  assumes "Generate L n border io nm g = Done (s, None) g1"
  obtains g0 funcs where
    "generate L n nm g = Done None g0"
    "renderBlocks L n border [] g0 = Done funcs g1"
proof (cases "generate L n nm g")
  case OutOfFuel
  with assms show ?thesis by (simp add: Generate_def)
next
  case Panic
  with assms show ?thesis by (simp add: Generate_def)
next
  case (Done e g0)
  show ?thesis
  proof (cases e)
    case (Some err)
    with Done assms show ?thesis by (simp add: Generate_def)
  next
    case None
    show ?thesis
    proof (cases "renderBlocks L n border [] g0")
      case (Done funcs g1')
      with \<open>generate L n nm g = Done e g0\<close> None assms have "g1' = g1"
        by (simp add: Generate_def output_def)
      with Done \<open>generate L n nm g = Done e g0\<close> None that show ?thesis by simp
    next
      case OutOfFuel
      with Done None assms show ?thesis by (simp add: Generate_def output_def)
    next
      case Panic
      with Done None assms show ?thesis by (simp add: Generate_def output_def)
    qed
  qed
qed

text \<open>
  Claim C6, as amended. Compiling a template again from the same generator state (a fresh
  generator, say), the same loader and the same visiting order of the blocks gives the
  same generator and the same text but for the import list, whose lines follow the order
  in which the import set is visited and are the same lines up to order.
\<close>

theorem Generate_modulo_import_order:
  "Generate L n border io1 nm g = Done (s1, None) g1 \<Longrightarrow>
     (\<exists>pre suf. \<forall>io. Generate L n border io nm g
                     = Done (pre @ join [nl, tab] (importLines io g1) @ suf, None) g1)
     \<and> (\<forall>io. mset io = mset io1 \<longrightarrow>
            mset (importLines io g1) = mset (importLines io1 g1))"
proof
  assume run: "Generate L n border io1 nm g = Done (s1, None) g1"
  then obtain g0 funcs where
    gen: "generate L n nm g = Done None g0" and
    ren: "renderBlocks L n border [] g0 = Done funcs g1"
    by (rule Generate_Done_None)
  have "Generate L n border io nm g
          = Done (unitHead (pkgName g1) @ join [nl, tab] (importLines io g1)
                    @ unitTail funcs (name g1) (out g0), None) g1" for io
    using gen ren by (simp add: Generate_def output_def)
  then show "\<exists>pre suf. \<forall>io. Generate L n border io nm g
                     = Done (pre @ join [nl, tab] (importLines io g1) @ suf, None) g1"
    by (intro exI allI)
next
  show "\<forall>io. mset io = mset io1 \<longrightarrow>
            mset (importLines io g1) = mset (importLines io1 g1)"
    by (intro allI impI importLines_mset)
qed

text \<open>The amended claim C6 on \<open>hello\<close> with two orders of the import set.\<close>

theorem Generate_modulo_import_order_witness:
  "Generate exampleLoader (Suc 0) [] stdImports ''hello'' (NewGenerator ''main'')
     = Done (unitHead ''main'' @ join [nl, tab] (importLines stdImports afterHello)
               @ unitTail [] ''hello'' helloBody, None) afterHello
   \<and> (\<exists>pre suf.
        Generate exampleLoader (Suc 0) [] [''io'', ''fmt'', ''github.com/tyler-sommer/stick'']
            ''hello'' (NewGenerator ''main'')
          = Done (pre @ join [nl, tab]
                    (importLines [''io'', ''fmt'', ''github.com/tyler-sommer/stick'']
                       afterHello) @ suf, None) afterHello
        \<and> Generate exampleLoader (Suc 0) [] stdImports ''hello'' (NewGenerator ''main'')
          = Done (pre @ join [nl, tab] (importLines stdImports afterHello) @ suf, None)
              afterHello)
   \<and> mset (importLines [''io'', ''fmt'', ''github.com/tyler-sommer/stick''] afterHello)
       = mset (importLines stdImports afterHello)"
proof -
  note t = Generate_modulo_import_order [OF Generate_hello]
  from t [THEN conjunct1] obtain pre suf where
    ps: "\<forall>io. Generate exampleLoader (Suc 0) [] io ''hello'' (NewGenerator ''main'')
            = Done (pre @ join [nl, tab] (importLines io afterHello) @ suf, None) afterHello"
    by (elim exE)
  have m: "mset [''io'', ''fmt'', ''github.com/tyler-sommer/stick''] = mset stdImports"
    by (simp add: stdImports_def)
  have perm: "mset (importLines [''io'', ''fmt'', ''github.com/tyler-sommer/stick''] afterHello)
       = mset (importLines stdImports afterHello)"
    by (rule t [THEN conjunct2, rule_format, OF m])
  have "Generate exampleLoader (Suc 0) [] [''io'', ''fmt'', ''github.com/tyler-sommer/stick'']
            ''hello'' (NewGenerator ''main'')
          = Done (pre @ join [nl, tab]
                    (importLines [''io'', ''fmt'', ''github.com/tyler-sommer/stick'']
                       afterHello) @ suf, None) afterHello
        \<and> Generate exampleLoader (Suc 0) [] stdImports ''hello'' (NewGenerator ''main'')
          = Done (pre @ join [nl, tab] (importLines stdImports afterHello) @ suf, None)
              afterHello"
    by (intro conjI ps [rule_format])
  then have ex: "\<exists>pre suf.
        Generate exampleLoader (Suc 0) [] [''io'', ''fmt'', ''github.com/tyler-sommer/stick'']
            ''hello'' (NewGenerator ''main'')
          = Done (pre @ join [nl, tab]
                    (importLines [''io'', ''fmt'', ''github.com/tyler-sommer/stick'']
                       afterHello) @ suf, None) afterHello
        \<and> Generate exampleLoader (Suc 0) [] stdImports ''hello'' (NewGenerator ''main'')
          = Done (pre @ join [nl, tab] (importLines stdImports afterHello) @ suf, None)
              afterHello"
    by - (rule exI, rule exI, assumption)
  show ?thesis
    by (intro conjI Generate_hello ex perm)
qed

text \<open>The print statement of claim C5 on an attribute access, after \<open>hello\<close> was compiled.\<close>

theorem print_guards_fallible_witness:
  "walkExpr afterHello (GetAttrExpr (NameExpr ''user'') (StringExpr ''name'') [])
     = Inr \<lparr> body = ''val, err := stick.GetAttr(ctx['' @ [dq] @ ''user'' @ [dq] @ ''], ''
                      @ [dq] @ ''name'' @ [dq] @ '')'',
             isFunction = True, hasError = True, resultantName = ''val'' \<rparr>
   \<and> (\<exists>g'. walk exampleLoader 0
              (PrintNode 2 0 (GetAttrExpr (NameExpr ''user'') (StringExpr ''name'') []))
              afterHello = Done None g'
         \<and> out g' = helloBody @ [tab] @ ''// line 2, offset 0 in hello'' @ [nl]
             @ [tab] @ ''{'' @ [nl]
             @ [tab, tab] @ ''val, err := stick.GetAttr(ctx['' @ [dq] @ ''user'' @ [dq]
                 @ ''], '' @ [dq] @ ''name'' @ [dq] @ '')'' @ [nl]
             @ [tab, tab] @ ''if err == nil {'' @ [nl]
             @ [tab, tab, tab] @ ''fmt.Fprint(output, val)'' @ [nl]
             @ [tab, tab] @ ''}'' @ [nl]
             @ [tab] @ ''}'' @ [nl])"
proof -
  have x: "walkExpr afterHello (GetAttrExpr (NameExpr ''user'') (StringExpr ''name'') [])
     = Inr \<lparr> body = ''val, err := stick.GetAttr(ctx['' @ [dq] @ ''user'' @ [dq] @ ''], ''
                      @ [dq] @ ''name'' @ [dq] @ '')'',
             isFunction = True, hasError = True, resultantName = ''val'' \<rparr>"
    by (simp add: newNameExpr_def afterHello_def gen_eval exampleLoader_def helloPage_def)
  from print_guards_fallible [OF x, of exampleLoader 0 2 0] x show ?thesis
    by (simp add: afterHello_fields traceLine_def indent_def indentAt_def itoa_def
          natToDec.simps digits_def eval_nat_numeral)
qed

section \<open>Block functions in the compiled unit\<close>

lemmas registry_eval =
  registryLoader_def pageA_def pageB_def nestedParent_def nestedChild_def


text \<open>
  A walk of statements that hold no block, no include and no module leaves the registry
  as it is; so does the loop of \<open>output\<close> when every registered body is such, and it then
  reads the registry the walk left.
\<close>

lemma walk_all_same_blocks:
  "(\<And>c g. c \<in> set cs \<Longrightarrow> holds (\<lambda>g'. blocks g' = blocks g) (walk L n c g)) \<Longrightarrow>
     holds (\<lambda>g'. blocks g' = blocks g) (walk_all L n cs g)"
proof (induction cs arbitrary: g)
  case Nil
  show ?case by simp
next
  case (Cons c cs)
  have c: "holds (\<lambda>g'. blocks g' = blocks g) (walk L n c g)"
    by (rule Cons.prems) simp
  have rest: "holds (\<lambda>g'. blocks g' = blocks g1) (walk_all L n cs g1)" for g1
    by (rule Cons.IH) (simp add: Cons.prems)
  show ?case
  proof (cases "walk L n c g")
    case (Done e g1)
    with c have b: "blocks g1 = blocks g" by simp
    show ?thesis
      using Done b rest [of g1] by (cases e) simp_all
  qed simp_all
qed

lemma walk_noBlocks:
  "noBlocks nd \<Longrightarrow> holds (\<lambda>g'. blocks g' = blocks g) (walk L n nd g)"
proof (induction nd arbitrary: g)
  case (BodyNode cs)
  then show ?case
    by (simp add: walk_all_same_blocks)
next
  case (ForNode line offset key val x b)
  show ?case
  proof (cases "walkExpr g x")
    case (Inl e)
    then show ?thesis by simp
  next
    case (Inr v)
    from ForNode have "holds (\<lambda>g'. blocks g' = blocks g)
                         (walk L n b (forOpen v line offset key val g))"
      by (metis forOpen_fields(3) noBlocks.simps(7))
    then show ?thesis
      using Inr by (cases "walk L n b (forOpen v line offset key val g)") simp_all
  qed
next
  case (IfNode line offset c b els)
  show ?case
  proof (cases "walkExpr g c")
    case (Inl e)
    then show ?thesis by simp
  next
    case (Inr cond)
    from IfNode have body: "holds (\<lambda>g'. blocks g' = blocks g)
                         (walk L n b (ifOpen cond line offset g))"
      by (metis ifOpen_fields(3) noBlocks.simps(8))
    have els: "holds (\<lambda>g'. blocks g' = blocks g1) (walk_all L n els g1)" for g1
      using IfNode by (intro walk_all_same_blocks) simp
    show ?thesis
    proof (cases "walk L n b (ifOpen cond line offset g)")
      case (Done e g1)
      with body have b1: "blocks g1 = blocks g" by simp
      show ?thesis
      proof (cases "els = []")
        case True
        with Inr Done b1 show ?thesis by simp
      next
        case False
        from els [of "elseOpen (g1\<lparr>tabs := tabs g1 - 1\<rparr>)"] b1
        have "holds (\<lambda>g'. blocks g' = blocks g)
                (walk_all L n els (elseOpen (g1\<lparr>tabs := tabs g1 - 1\<rparr>)))"
          by simp
        with Inr Done False show ?thesis
          by (cases "walk_all L n els (elseOpen (g1\<lparr>tabs := tabs g1 - 1\<rparr>))")
             (simp_all add: Let_def)
      qed
    qed (use Inr in simp_all)
  qed
qed (simp_all add: Let_def split: sum.split)

lemma callRenderer_noBlocks:
  "noBlocks (blockBody r) \<Longrightarrow> holds (\<lambda>g'. blocks g' = blocks g) (callRenderer L n r g)"
proof -
  assume nb: "noBlocks (blockBody r)"
  let ?g0 = "writeString (''func block'' @ titleize (rootName r) @ titleize (blockName r)
                @ ''(env *stick.Env, output io.Writer, ctx map[string]stick.Value) {''
                @ [nl]) g"
  from walk_noBlocks [OF nb, of ?g0 L n]
  show ?thesis
    by (cases "walk L n (blockBody r) ?g0") (simp_all add: callRenderer_def Let_def)
qed

lemma renderBlocks_same_blocks:
  "plainBlocks g \<Longrightarrow> holds (\<lambda>g'. blocks g' = blocks g) (renderBlocks L n ks funcs g)"
proof (induction ks arbitrary: funcs g)
  case Nil
  show ?case by simp
next
  case (Cons k ks)
  show ?case
  proof (cases "blocks g k")
    case None
    with Cons.IH [OF Cons.prems, of funcs] show ?thesis by simp
  next
    case (Some r)
    with Cons.prems have nb: "noBlocks (blockBody r)"
      by (simp add: plainBlocks_def)
    show ?thesis
    proof (cases "callRenderer L n r (g\<lparr>out := []\<rparr>)")
      case (Done u g1)
      with callRenderer_noBlocks [OF nb, of "g\<lparr>out := []\<rparr>" L n]
      have b1: "blocks g1 = blocks g" by simp
      with Cons.prems have "plainBlocks g1" by (simp add: plainBlocks_def)
      from Cons.IH [OF this, of "funcs @ [out g1]"] b1 Some Done
      show ?thesis by simp
    qed (use Some in simp_all)
  qed
qed

lemma renderBlocks_renderFrom:
  "plainBlocks g \<Longrightarrow> renderBlocks L n ks funcs g = renderFrom L n (blocks g) ks funcs g"
proof (induction ks arbitrary: funcs g)
  case Nil
  show ?case by simp
next
  case (Cons k ks)
  show ?case
  proof (cases "blocks g k")
    case None
    with Cons.IH [OF Cons.prems, of funcs] show ?thesis by simp
  next
    case (Some r)
    with Cons.prems have nb: "noBlocks (blockBody r)"
      by (simp add: plainBlocks_def)
    show ?thesis
    proof (cases "callRenderer L n r (g\<lparr>out := []\<rparr>)")
      case (Done u g1)
      with callRenderer_noBlocks [OF nb, of "g\<lparr>out := []\<rparr>" L n]
      have b1: "blocks g1 = blocks g" by simp
      with Cons.prems have "plainBlocks g1" by (simp add: plainBlocks_def)
      from Cons.IH [OF this, of "funcs @ [out g1]"] b1 Some Done
      show ?thesis by simp
    qed (use Some in simp_all)
  qed
qed

lemma renderFrom_emits:
  "renderFrom L n reg ks funcs g = Done fs g' \<Longrightarrow>
     set funcs \<subseteq> set fs
     \<and> (\<forall>k\<in>set ks. \<forall>r. reg k = Some r \<longrightarrow>
           (\<exists>ga gb. callRenderer L n r (ga\<lparr>out := []\<rparr>) = Done () gb \<and> out gb \<in> set fs))"
proof (induction ks arbitrary: funcs g)
  case Nil
  then show ?case by simp
next
  case (Cons k ks)
  show ?case
  proof (cases "reg k")
    case None
    with Cons.prems have "renderFrom L n reg ks funcs g = Done fs g'" by simp
    from Cons.IH [OF this] None show ?thesis by auto
  next
    case (Some r)
    with Cons.prems obtain u g1 where
      c: "callRenderer L n r (g\<lparr>out := []\<rparr>) = Done u g1" and
      rest: "renderFrom L n reg ks (funcs @ [out g1]) g1 = Done fs g'"
      by (cases "callRenderer L n r (g\<lparr>out := []\<rparr>)") simp_all
    from Cons.IH [OF rest] have
      sub: "set (funcs @ [out g1]) \<subseteq> set fs" and
      ih: "\<forall>k\<in>set ks. \<forall>r. reg k = Some r \<longrightarrow>
             (\<exists>ga gb. callRenderer L n r (ga\<lparr>out := []\<rparr>) = Done () gb \<and> out gb \<in> set fs)"
      by simp_all
    from sub have here: "out g1 \<in> set fs" and sub': "set funcs \<subseteq> set fs" by simp_all
    from c here have k: "\<exists>ga gb. callRenderer L n r (ga\<lparr>out := []\<rparr>) = Done () gb \<and> out gb \<in> set fs"
      by - (rule exI [of _ g], rule exI [of _ g1], simp)
    show ?thesis
    proof (intro conjI ballI allI impI)
      show "set funcs \<subseteq> set fs" by (rule sub')
    next
      fix k' r'
      assume a: "k' \<in> set (k # ks)" "reg k' = Some r'"
      show "\<exists>ga gb. callRenderer L n r' (ga\<lparr>out := []\<rparr>) = Done () gb \<and> out gb \<in> set fs"
      proof (cases "k' = k")
        case True
        with a Some have "r' = r" by simp
        with k show ?thesis by simp
      next
        case False
        with a have "k' \<in> set ks" by simp
        with ih a(2) show ?thesis by blast
      qed
    qed
  qed
qed

lemma Generate_derived_block:
  assumes tree: "L c = Inr (ModuleNode (Some (StringExpr p))
                        (pre @ BlockNode line offset nm b # post))"
    and post: "\<forall>x\<in>set post. keepsBlock nm x"
    and w: "walk L m (ModuleNode (Some (StringExpr p))
               (pre @ BlockNode line offset nm b # post)) (pushName c g) = Done None gw"
    and plain: "plainBlocks gw"
    and run: "Generate L (Suc m) border iorder c g = Done (s, e) g2"
  shows "e = None \<and> blocks g2 = blocks gw
         \<and> blocks g2 nm = Some (Renderer (hd (stack g @ [c])) nm b)
         \<and> (\<exists>g1 funcs. generate L (Suc m) c g = Done None g1
               \<and> renderFrom L (Suc m) (blocks gw) border [] g1 = Done funcs g2
               \<and> s = unitHead (pkgName g2) @ join [nl, tab] (importLines iorder g2)
                       @ unitTail funcs (name g2) (out g1)
               \<and> (nm \<in> set border \<longrightarrow>
                    (\<exists>ga gb. callRenderer L (Suc m) (Renderer (hd (stack g @ [c])) nm b)
                                (ga\<lparr>out := []\<rparr>) = Done () gb
                             \<and> out gb \<in> set funcs)))"
proof -
  have gen: "generate L (Suc m) c g = (if stack g \<noteq> [] then popStack gw else Done None gw)"
    using tree w by (simp add: generate_unfold)
  from run obtain e1 g1 where g1: "generate L (Suc m) c g = Done e1 g1"
    by (cases "generate L (Suc m) c g") (simp_all add: Generate_def)
  have e1: "e1 = None" and b1: "blocks g1 = blocks gw"
    using g1 gen by (auto split: if_splits dest: popStack_Done)
  from run g1 e1 obtain funcs where
    ren: "renderBlocks L (Suc m) border [] g1 = Done funcs g2" and
    s: "s = unitHead (pkgName g2) @ join [nl, tab] (importLines iorder g2)
              @ unitTail funcs (name g2) (out g1)" and
    e: "e = None"
    by (cases "renderBlocks L (Suc m) border [] g1")
       (simp_all add: Generate_def output_def)
  from plain b1 have p1: "plainBlocks g1" by (simp add: plainBlocks_def)
  from renderBlocks_same_blocks [OF p1, of L "Suc m" border "[]"] ren b1
  have b2: "blocks g2 = blocks gw" by simp
  from renderBlocks_renderFrom [OF p1, of L "Suc m" border "[]"] ren b1
  have rf: "renderFrom L (Suc m) (blocks gw) border [] g1 = Done funcs g2" by simp
  have "stack (pushName c g) \<noteq> []" by simp
  from derived_block_wins [OF this w post]
  have win: "blocks gw nm = Some (Renderer (hd (stack g @ [c])) nm b)" by simp
  from renderFrom_emits [OF rf] win
  have em: "nm \<in> set border \<longrightarrow>
              (\<exists>ga gb. callRenderer L (Suc m) (Renderer (hd (stack g @ [c])) nm b)
                          (ga\<lparr>out := []\<rparr>) = Done () gb
                       \<and> out gb \<in> set funcs)"
    by blast
  from g1 e1 rf s em
  have "\<exists>g1 funcs. generate L (Suc m) c g = Done None g1
               \<and> renderFrom L (Suc m) (blocks gw) border [] g1 = Done funcs g2
               \<and> s = unitHead (pkgName g2) @ join [nl, tab] (importLines iorder g2)
                       @ unitTail funcs (name g2) (out g1)
               \<and> (nm \<in> set border \<longrightarrow>
                    (\<exists>ga gb. callRenderer L (Suc m) (Renderer (hd (stack g @ [c])) nm b)
                                (ga\<lparr>out := []\<rparr>) = Done () gb
                             \<and> out gb \<in> set funcs))"
    by - (rule exI [of _ g1], rule exI [of _ funcs], simp)
  with e b2 win show ?thesis by simp
qed



section \<open>Errors of the walk\<close>

text \<open>What \<open>evaluate\<close> accepts, and what the module and include cases do with it.\<close>

lemma evaluate_literal: "evaluate e = Some t \<longleftrightarrow> e = StringExpr t"
  by (cases e) (simp_all add: evaluate_def)

lemma walk_extends_not_literal:
  "evaluate tpl = None \<Longrightarrow>
     walk L n (ModuleNode (Some tpl) cs) g
       = Done (Some (Err ''Unable to evaluate extends reference'')) g"
  by simp

lemma walk_include_not_literal:
  "evaluate tpl = None \<Longrightarrow>
     walk L n (IncludeNode tpl) g
       = Done (Some (Err ''Unable to evaluate include reference'')) g"
  by simp

lemma walk_extends_literal:
  "walk L n (ModuleNode (Some (StringExpr p)) cs) g =
     (case generate L n p g of Done None g1 \<Rightarrow> walk_all L n cs g1 | r \<Rightarrow> r)"
  by (simp add: evaluate_def split: res.split option.split)

lemma walk_include_literal:
  "walk L n (IncludeNode (StringExpr p)) g = generate L n p g"
  by (simp add: evaluate_def)

text \<open>
  Claim C1 has every error of the walk reach the caller of \<open>Generate\<close>, with no text
  returned. The code does not do that: \<open>generate\<close> returns nil whatever \<open>walk\<close> returned
  (lemma \<open>generate_error\<close>: its only errors are the loader's), and the for and if cases
  drop the result of the walk of their bodies. On \<open>methodPage\<close> the walk stops at the print
  statement with the error of the method call; \<open>generate\<close> returns nil and \<open>Generate\<close>
  returns, with no error, the unit compiled up to that statement. On \<open>loopMethodPage\<close>,
  where the statement stands in the body of a for loop and of an if statement, \<open>walk\<close>
  itself returns nil and goes on to the statements that follow.
\<close>

theorem generate_drops_walk_error:
  "resultOf (walk exampleLoader 0 methodPage (pushName ''method'' (NewGenerator ''main'')))
     = Some (Some (Err ''Method calls are currently unsupported.''))
   \<and> resultOf (generate exampleLoader (Suc 0) ''method'' (NewGenerator ''main'')) = Some None
   \<and> resultOf (Generate exampleLoader (Suc 0) [] stdImports ''method'' (NewGenerator ''main''))
     = Some (unitHead ''main'' @ join [nl, tab] (map quoted stdImports)
               @ unitTail [] ''method'' methodOut, None)
   \<and> resultOf (walk exampleLoader 0 loopMethodPage
                 (pushName ''loopmethod'' (NewGenerator ''main''))) = Some None
   \<and> resultOf (Generate exampleLoader (Suc 0) [] stdImports ''loopmethod''
                 (NewGenerator ''main''))
     = Some (unitHead ''main'' @ join [nl, tab] (map quoted stdImports)
               @ unitTail [] ''loopmethod'' loopMethodOut, None)"
  by (simp add: ex_bool eval_nat_numeral page_eval gen_eval stdImports_def methodOut_def loopMethodOut_def)

text \<open>
  Claim C4 has \<open>compile\<close> fail when the target of an extends or include tag is not a
  string literal. \<open>walk\<close> returns that error (lemmas \<open>walk_extends_not_literal\<close> and
  \<open>walk_include_not_literal\<close>; a literal target is compiled in place, lemmas
  \<open>walk_extends_literal\<close> and \<open>walk_include_literal\<close>), but \<open>generate\<close> drops it as it
  drops every error of the walk: on \<open>dynExtendsPage\<close> and on \<open>dynIncludePage\<close>
  \<open>Generate\<close> returns a unit and no error.
\<close>

theorem unresolvable_reference_dropped:
  "resultOf (walk exampleLoader 0 dynExtendsPage
               (pushName ''dynextends'' (NewGenerator ''main'')))
     = Some (Some (Err ''Unable to evaluate extends reference''))
   \<and> resultOf (Generate exampleLoader (Suc 0) [] stdImports ''dynextends''
                 (NewGenerator ''main''))
     = Some (unitHead ''main''
               @ join [nl, tab] (map quoted [''github.com/tyler-sommer/stick'', ''io''])
               @ unitTail [] ''dynextends'' [], None)
   \<and> resultOf (walk exampleLoader 0 dynIncludePage
                 (pushName ''dyninclude'' (NewGenerator ''main'')))
     = Some (Some (Err ''Unable to evaluate include reference''))
   \<and> resultOf (Generate exampleLoader (Suc 0) [] stdImports ''dyninclude''
                 (NewGenerator ''main''))
     = Some (unitHead ''main'' @ join [nl, tab] (map quoted stdImports)
               @ unitTail [] ''dyninclude'' dynIncludeOut, None)"
  by (simp add: ex_bool eval_nat_numeral page_eval gen_eval stdImports_def dynIncludeOut_def)

text \<open>
  Claim C7 has the errors of expression translation abort the compile call. \<open>walkExpr\<close>
  returns them for the three constructs, and for no other (lemmas \<open>walkExpr_error_iff\<close>
  and \<open>walkExpr_error_message\<close>), but \<open>generate\<close> drops them as it drops every error of
  the walk: on \<open>sumPage\<close> the walk returns the error of the operator and \<open>Generate\<close>
  returns a unit and no error.
\<close>

theorem unsupported_construct_dropped:
  "walkExpr (NewGenerator ''main'') methodCall
     = Inl (Err ''Method calls are currently unsupported.'')
   \<and> walkExpr (NewGenerator ''main'') (FuncExpr ''max'' [NameExpr ''a'', NameExpr ''b''])
     = Inl (Err ''Function currently calls only support a single argument.'')
   \<and> walkExpr (NewGenerator ''main'') (FuncExpr ''now'' [])
     = Inl (Err ''Function currently calls only support a single argument.'')
   \<and> walkExpr (NewGenerator ''main'') (BinaryExpr (NameExpr ''a'') ''+'' (NameExpr ''b''))
     = Inl (Err ''stickgen: unsupported binary operator: +'')
   \<and> resultOf (walk exampleLoader 0 sumPage (pushName ''sum'' (NewGenerator ''main'')))
     = Some (Some (Err ''stickgen: unsupported binary operator: +''))
   \<and> resultOf (Generate exampleLoader (Suc 0) [] stdImports ''sum'' (NewGenerator ''main''))
     = Some (unitHead ''main''
               @ join [nl, tab] (map quoted [''github.com/tyler-sommer/stick'', ''io''])
               @ unitTail [] ''sum'' [], None)"
  by (simp add: ex_bool eval_nat_numeral page_eval gen_eval stdImports_def)

section \<open>Loop identifiers\<close>

text \<open>
  Claim C3 has a reference after a loop resolve by the set of active locals in force
  before the loop, also in the body of an enclosing loop that binds the same identifier.
  The for case removes its identifiers after the body whether or not they were active
  before: inside the outer loop of \<open>outerLoop\<close> the identifier \<open>item\<close> is active and a
  reference to it is the loop variable; after the inner loop, which binds \<open>item\<close> too, it
  is not active any more, and the reference that follows in the outer body is compiled to
  a lookup in the context.
\<close>

theorem inner_loop_removes_outer_binding:
  "args insideOuterLoop ''item'' = Some True
   \<and> walkExpr insideOuterLoop (NameExpr ''item'') = Inr (newNameExpr ''item'')
   \<and> map_option (\<lambda>g. args g ''item'') (stateOf (walk exampleLoader 0 innerLoop insideOuterLoop))
     = Some None
   \<and> map_option (\<lambda>g. walkExpr g (NameExpr ''item''))
        (stateOf (walk exampleLoader 0 innerLoop insideOuterLoop))
     = Some (Inr (newNameExpr (''ctx['' @ [dq] @ ''item'' @ [dq] @ '']'')))
   \<and> map_option out
        (stateOf (walk exampleLoader 0 outerLoop (pushName ''loops'' (NewGenerator ''main''))))
     = Some loopsOut"
  by (simp add: ex_bool eval_nat_numeral page_eval gen_eval insideOuterLoop_def loopsOut_def)

end
